theory Spec2Isabelle
  imports Main "HOL-Library.AList"
begin

section \<open>Python strings\<close>

text \<open>
  A Python \<open>str\<close> is modelled as a \<open>string\<close> whose characters are the code points
  0 to 255. Texts with code points above 255, read or printed, are outside the model; the
  character classes below are Python's \<open>str.isspace\<close>, \<open>str.isdecimal\<close> and
  \<open>str.isdigit\<close> restricted to that range.
\<close>

definition isspace :: "char \<Rightarrow> bool" where
  "isspace c = (c \<in> set [CHR 0x09, CHR 0x0A, CHR 0x0B, CHR 0x0C, CHR 0x0D,
                          CHR 0x1C, CHR 0x1D, CHR 0x1E, CHR 0x1F, CHR 0x20,
                          CHR 0x85, CHR 0xA0])"

definition isdecimal_char :: "char \<Rightarrow> bool" where
  "isdecimal_char c = (c \<in> set ''0123456789'')"

text \<open>Superscript two, three and one are digits for \<open>str.isdigit\<close>, not for \<open>int\<close>.\<close>

definition isdigit_char :: "char \<Rightarrow> bool" where
  "isdigit_char c = (isdecimal_char c \<or> c \<in> set [CHR 0xB2, CHR 0xB3, CHR 0xB9])"

text \<open>\<^verbatim>\<open>s.strip()\<close>\<close>

definition strip :: "string \<Rightarrow> string" where
  "strip s = rev (dropWhile isspace (rev (dropWhile isspace s)))"

text \<open>\<^verbatim>\<open>s.startswith(p)\<close>\<close>

definition startswith :: "string \<Rightarrow> string \<Rightarrow> bool" where
  "startswith s p = (take (length p) s = p)"

text \<open>\<^verbatim>\<open>p in s\<close>\<close>

fun contains :: "string \<Rightarrow> string \<Rightarrow> bool" where
  "contains [] p = (p = [])"
| "contains (c # cs) p = (startswith (c # cs) p \<or> contains cs p)"

text \<open>\<^verbatim>\<open>s.split(sep, 1)\<close> for a separator of one character: one or two parts.\<close>

definition split_max1 :: "char \<Rightarrow> string \<Rightarrow> string list" where
  "split_max1 sep s =
     (case dropWhile (\<lambda>c. c \<noteq> sep) s of
        [] \<Rightarrow> [s]
      | _ # rest \<Rightarrow> [takeWhile (\<lambda>c. c \<noteq> sep) s, rest])"

text \<open>
  \<^verbatim>\<open>s.split()\<close>: the maximal runs of non-whitespace characters. \<open>split_ws_from cur s\<close>
  scans \<open>s\<close> with the characters \<open>cur\<close> of the run being read.
\<close>

fun split_ws_from :: "string \<Rightarrow> string \<Rightarrow> string list" where
  "split_ws_from cur [] = (if cur = [] then [] else [cur])"
| "split_ws_from cur (c # cs) =
     (if isspace c then (if cur = [] then split_ws_from [] cs else cur # split_ws_from [] cs)
      else split_ws_from (cur @ [c]) cs)"

definition split_ws :: "string \<Rightarrow> string list" where
  "split_ws s = split_ws_from [] s"

text \<open>\<^verbatim>\<open>s.isdigit()\<close>\<close>

definition isdigit :: "string \<Rightarrow> bool" where
  "isdigit s = (s \<noteq> [] \<and> list_all isdigit_char s)"

section \<open>Exceptions\<close>

datatype exn_class =
    EOFError | KeyboardInterrupt | TypeError | ValueError | JSONDecodeError | OSError
  | UnicodeEncodeError
  | OtherException string
  | OtherBaseException string

datatype exn = Exn (cls: exn_class) (msg: string)

text \<open>
  \<^verbatim>\<open>except Exception\<close> catches every class but those derived from \<open>BaseException\<close>
  only (\<open>KeyboardInterrupt\<close>, \<open>SystemExit\<close>, \<open>asyncio.CancelledError\<close>).
\<close>

fun is_Exception :: "exn_class \<Rightarrow> bool" where
  "is_Exception KeyboardInterrupt = False"
| "is_Exception (OtherBaseException _) = False"
| "is_Exception _ = True"

text \<open>\<^verbatim>\<open>str(n)\<close> for a natural number and \<^verbatim>\<open>f"{n:<4}"\<close>.\<close>

fun str_nat :: "nat \<Rightarrow> string" where
  "str_nat n = (if n < 10 then [char_of (48 + n)] else str_nat (n div 10) @ [char_of (48 + n mod 10)])"

declare str_nat.simps [simp del]

text \<open>
  \<^verbatim>\<open>int(s)\<close> on a string for which \<open>s.isdigit()\<close> holds, the only place the program
  calls it: the value of the decimal numeral; \<open>ValueError\<close> when a character is a
  digit that is not decimal, and \<open>ValueError\<close> when the numeral has more than 4300
  digits, leading zeros counted (the default of \<open>sys.set_int_max_str_digits\<close>).
\<close>

definition digit_val :: "char \<Rightarrow> int" where
  "digit_val c = int (of_char c) - 48"

definition int_limit_error :: "nat \<Rightarrow> exn" where
  "int_limit_error n =
     Exn ValueError (''Exceeds the limit (4300 digits) for integer string conversion: value has ''
                       @ str_nat n @ '' digits; use sys.set_int_max_str_digits() to increase the limit'')"

definition py_int :: "string \<Rightarrow> exn + int" where
  "py_int s =
     (if s \<noteq> [] \<and> list_all isdecimal_char s
      then (if length s > 4300 then Inl (int_limit_error (length s))
            else Inr (foldl (\<lambda>n c. 10 * n + digit_val c) 0 s))
      else Inl (Exn ValueError (''invalid literal for int() with base 10: '' @ [CHR 0x27] @ s
                                  @ [CHR 0x27])))"

definition ljust :: "nat \<Rightarrow> string \<Rightarrow> string" where
  "ljust w s = s @ replicate (w - length s) (CHR '' '')"

section \<open>The state of the process and of its environment\<close>

text \<open>
  What the user sees: each \<open>print\<close> call and each prompt of \<open>input\<close>, in order.
\<close>

datatype event = Prompt string | Print string

text \<open>
  A tool of the catalog: its name and its \<open>model_dump()\<close>, a JSON document of type
  \<open>'j\<close> whose \<open>name\<close> entry is the tool's name.
\<close>

record 'j tool =
  name :: string
  model_dump :: 'j

text \<open>
  One content segment of a tool result: its \<open>type\<close>, its \<open>text\<close> and what
  \<open>print\<close> shows for it. A result either has the \<open>content\<close> attribute or is
  known by what \<open>print\<close> shows for it.
\<close>

record content =
  ctype :: string
  ctext :: string
  cstr :: string

datatype tool_result = HasContent "content list" | NoContent string

text \<open>A progress notification, each part as the f-string renders it.\<close>

record progress =
  p_progress :: string
  p_total :: string
  p_message :: string

text \<open>The \<open>mcpServers.server1\<close> entry of the configuration handed to \<open>Client\<close>.\<close>

datatype config =
    StdioConfig (command: string) (args: "string list") (env: "(string \<times> string) list")
  | RemoteConfig (url: string) (headers: "(string \<times> string) list") (transport: string)
      (sse_read_timeout: nat)

text \<open>
  The state: the lines still to be read from standard input (end of input after them),
  what was shown so far, the catalog \<open>self.tools\<close>, whether the client context is
  open, whether debug logging was configured, and the state \<open>'x\<close> of everything the
  program talks to (server, file system).
\<close>

record ('j, 'x) state =
  inp :: "string list"
  out :: "event list"
  tools :: "'j tool list"
  connected :: bool
  debug_logging :: bool
  xstate :: 'x

text \<open>
  The libraries and collaborators, not part of this repository: \<open>json.loads\<close>,
  \<open>json.dumps v indent ensure_ascii\<close>, whether the text that \<open>json.dumps\<close> gives for
  \<open>v\<close> with \<open>ensure_ascii\<close> off has a character that standard output cannot encode (a
  lone surrogate, which lies outside the strings of this model; \<open>print\<close> raises
  \<open>UnicodeEncodeError\<close> for it), the Python list of JSON documents, truth value
  and the empty dict of JSON values, the \<open>str\<close> of a configuration dict, the fastmcp
  client (context entry and exit, \<open>list_tools\<close>, \<open>call_tool\<close> with the progress
  notifications it delivers before it returns or raises), writing a file, and the help
  text of \<open>argparse\<close>.
\<close>

record ('j, 'x) env =
  loads :: "string \<Rightarrow> exn + 'j"
  dumps :: "'j \<Rightarrow> nat \<Rightarrow> bool \<Rightarrow> string"
  jlist :: "'j list \<Rightarrow> 'j"
  unprintable :: "'j \<Rightarrow> bool"
  truthy :: "'j \<Rightarrow> bool"
  empty_dict :: 'j
  str_config :: "config \<Rightarrow> string"
  client_enter :: "config \<Rightarrow> 'x \<Rightarrow> (exn + unit) \<times> 'x"
  client_exit :: "'x \<Rightarrow> 'x"
  list_tools :: "'x \<Rightarrow> (exn + 'j tool list) \<times> 'x"
  call_tool :: "string \<Rightarrow> 'j \<Rightarrow> 'x \<Rightarrow> (progress list \<times> (exn + tool_result)) \<times> 'x"
  write_file :: "string \<Rightarrow> string \<Rightarrow> 'x \<Rightarrow> (exn + unit) \<times> 'x"
  help_text :: string

definition py_print :: "string \<Rightarrow> ('j, 'x) state \<Rightarrow> ('j, 'x) state" where
  "py_print s st = st\<lparr>out := out st @ [Print s]\<rparr>"

text \<open>\<^verbatim>\<open>input(prompt)\<close>: shows the prompt, then reads a line or raises \<open>EOFError\<close>.\<close>

definition py_input :: "string \<Rightarrow> ('j, 'x) state \<Rightarrow> (exn + string) \<times> ('j, 'x) state" where
  "py_input prompt st =
     (let st1 = st\<lparr>out := out st @ [Prompt prompt]\<rparr>
      in case inp st of
           [] \<Rightarrow> (Inl (Exn EOFError ''EOF when reading a line''), st1)
         | l # ls \<Rightarrow> (Inr l, st1\<lparr>inp := ls\<rparr>))"

section \<open>FastMcpClient.input_json\<close>

text \<open>
  \<^verbatim>\<open>
  lines = ""
  while True:
      line = input(prompt if not lines else "")
      lines += line
      lines = lines.strip()
      if not lines.startswith("{"):
          print("invalid json format")
          lines = ""
          continue
      try:
          return json.loads(lines)
      except json.JSONDecodeError:
          continue
  \<close>
  \<open>input_json_loop\<close> is the loop from a given value of \<open>lines\<close>.
\<close>

function input_json_loop ::
  "('j, 'x) env \<Rightarrow> string \<Rightarrow> string \<Rightarrow> ('j, 'x) state \<Rightarrow> (exn + 'j) \<times> ('j, 'x) state" where
  "input_json_loop E prompt lines st =
     (case py_input (if lines = [] then prompt else []) st of
        (Inl e, st1) \<Rightarrow> (Inl e, st1)
      | (Inr line, st1) \<Rightarrow>
          (let lines1 = strip (lines @ line)
           in if \<not> startswith lines1 ''{''
              then input_json_loop E prompt [] (py_print ''invalid json format'' st1)
              else (case loads E lines1 of
                      Inr v \<Rightarrow> (Inr v, st1)
                    | Inl e \<Rightarrow>
                        if cls e = JSONDecodeError then input_json_loop E prompt lines1 st1
                        else (Inl e, st1))))"
  by pat_completeness auto
termination
  by (relation "measure (\<lambda>(E, prompt, lines, st). length (inp st))")
     (auto simp: py_input_def py_print_def Let_def split: list.splits)

declare input_json_loop.simps [simp del]

definition input_json ::
  "('j, 'x) env \<Rightarrow> string \<Rightarrow> ('j, 'x) state \<Rightarrow> (exn + 'j) \<times> ('j, 'x) state" where
  "input_json E prompt st = input_json_loop E prompt [] st"

section \<open>FastMcpClient.__init__\<close>

text \<open>
  \<^verbatim>\<open>
  if transport_type == "stdio":
      parts = server_url.strip().split(" ", 1)
      command = parts[0]
      args = parts[1].split() if len(parts) > 1 else []
      config = {"mcpServers": {"server1": {"command": command, "args": args, "env": headers}}}
      print(f"\nstarting stdio mcp with config:\n{config}\n")
  else:
      config = {"mcpServers": {"server1": {"url": self.server_url, "headers": headers,
          "transport": transport_type, "sse_read_timeout": timedelta(seconds=3600)}}}
  self.client = Client(config)
  \<close>
  \<open>split_max1\<close> returns one or two parts, so \<open>parts[0]\<close> is always there.
\<close>

definition FastMcpClient_init ::
  "('j, 'x) env \<Rightarrow> string \<Rightarrow> string \<Rightarrow> (string \<times> string) list \<Rightarrow> ('j, 'x) state
     \<Rightarrow> config \<times> ('j, 'x) state" where
  "FastMcpClient_init E server_url transport_type hdrs st =
     (if transport_type = ''stdio''
      then (let parts = split_max1 (CHR '' '') (strip server_url);
                cmd = parts ! 0;
                as = (if length parts > 1 then split_ws (parts ! 1) else []);
                cfg = StdioConfig cmd as hdrs
            in (cfg, py_print ([CHR 0x0A] @ ''starting stdio mcp with config:'' @ [CHR 0x0A]
                                 @ str_config E cfg @ [CHR 0x0A]) st))
      else (RemoteConfig server_url hdrs transport_type 3600, st))"

section \<open>The commands\<close>

text \<open>
  \<^verbatim>\<open>
  tools_schema = [tool.model_dump() for tool in self.tools]
  s = json.dumps(tools_schema, indent=2, ensure_ascii=False)
  with open("schema.json", "w", encoding="utf-8") as f:
      f.write(s)
  print("schema.json saved")
  \<close>
\<close>

definition cmd_dump_tools_schema ::
  "('j, 'x) env \<Rightarrow> ('j, 'x) state \<Rightarrow> (exn + unit) \<times> ('j, 'x) state" where
  "cmd_dump_tools_schema E st =
     (let tools_schema = map model_dump (tools st);
          s = dumps E (jlist E tools_schema) 2 False
      in case write_file E ''schema.json'' s (xstate st) of
           (Inl e, x) \<Rightarrow> (Inl e, st\<lparr>xstate := x\<rparr>)
         | (Inr _, x) \<Rightarrow> (Inr (), py_print ''schema.json saved'' (st\<lparr>xstate := x\<rparr>)))"

text \<open>
  \<^verbatim>\<open>
  if index < 0 or index >= len(self.tools):
      return None
  tool_schema = self.tools[index].model_dump()
  s = json.dumps(tool_schema, indent=2, ensure_ascii=False)
  print(s)
  return tool_schema['name']
  \<close>
\<close>

definition cmd_show_tool_schema ::
  "('j, 'x) env \<Rightarrow> int \<Rightarrow> ('j, 'x) state \<Rightarrow> string option \<times> ('j, 'x) state" where
  "cmd_show_tool_schema E index st =
     (if index < 0 \<or> index \<ge> int (length (tools st)) then (None, st)
      else (let t = tools st ! nat index;
                s = dumps E (model_dump t) 2 False
            in (Some (name t), py_print s st)))"

text \<open>
  \<^verbatim>\<open>
  print("==================================")
  print(f"index | tool name")
  for i, tool in enumerate(self.tools, 1):
      print(f" {i:<4} | {tool.name}")
  print("==================================")
  \<close>
\<close>

definition tool_row :: "nat \<Rightarrow> 'j tool \<Rightarrow> string" where
  "tool_row i t = '' '' @ ljust 4 (str_nat i) @ '' | '' @ name t"

fun print_rows :: "(nat \<times> 'j tool) list \<Rightarrow> ('j, 'x) state \<Rightarrow> ('j, 'x) state" where
  "print_rows [] st = st"
| "print_rows ((i, t) # rest) st = print_rows rest (py_print (tool_row i t) st)"

definition cmd_list_tools :: "('j, 'x) state \<Rightarrow> ('j, 'x) state" where
  "cmd_list_tools st =
     py_print ''==================================''
       (print_rows (List.enumerate 1 (tools st))
          (py_print ''index | tool name'' (py_print ''=================================='' st)))"

text \<open>\<^verbatim>\<open>print(f"[PROGRESS] {progress}/{total} {message}\n")\<close>\<close>

definition log_callback :: "progress \<Rightarrow> ('j, 'x) state \<Rightarrow> ('j, 'x) state" where
  "log_callback p st =
     py_print (''[PROGRESS] '' @ p_progress p @ ''/'' @ p_total p @ '' '' @ p_message p @ [CHR 0x0A]) st"

text \<open>The notifications of one call, handled in the order of their arrival.\<close>

fun log_callbacks :: "progress list \<Rightarrow> ('j, 'x) state \<Rightarrow> ('j, 'x) state" where
  "log_callbacks [] st = st"
| "log_callbacks (p # ps) st = log_callbacks ps (log_callback p st)"

section \<open>FastMcpClient.pretty_print_tool_result\<close>

text \<open>
  \<^verbatim>\<open>
  print("\n================ tool result ===============\n")
  if hasattr(result, "content"):
      for content in result.content:
          if content.type == "text":
              try:
                  json_data = json.loads(content.text)
                  print(json.dumps(json_data, indent=2, ensure_ascii=False))
              except json.JSONDecodeError:
                  print(content.text)
          else:
              print(content)
  else:
      print(result)
  \<close>
  \<open>print_contents\<close> is the \<open>for\<close> loop.
\<close>

fun print_contents ::
  "('j, 'x) env \<Rightarrow> content list \<Rightarrow> ('j, 'x) state \<Rightarrow> (exn + unit) \<times> ('j, 'x) state" where
  "print_contents E [] st = (Inr (), st)"
| "print_contents E (c # cs) st =
     (if ctype c = ''text''
      then (case loads E (ctext c) of
              Inr json_data \<Rightarrow>
                if unprintable E json_data
                then (Inl (Exn UnicodeEncodeError ''surrogates not allowed''), st)
                else print_contents E cs (py_print (dumps E json_data 2 False) st)
            | Inl e \<Rightarrow>
                if cls e = JSONDecodeError then print_contents E cs (py_print (ctext c) st)
                else (Inl e, st))
      else print_contents E cs (py_print (cstr c) st))"

definition banner :: string where
  "banner = [CHR 0x0A] @ ''================ tool result ==============='' @ [CHR 0x0A]"

definition pretty_print_tool_result ::
  "('j, 'x) env \<Rightarrow> tool_result \<Rightarrow> ('j, 'x) state \<Rightarrow> (exn + unit) \<times> ('j, 'x) state" where
  "pretty_print_tool_result E result st =
     (let st1 = py_print banner st
      in case result of
           HasContent cs \<Rightarrow> print_contents E cs st1
         | NoContent s \<Rightarrow> (Inr (), py_print s st1))"

section \<open>FastMcpClient.cmd_call_tool\<close>

text \<open>
  \<^verbatim>\<open>
  print(f"call tool {tool_name} ...")
  try:
      result = await self.client.call_tool(tool_name, arguments or {}, progress_handler=self.log_callback)
      self.pretty_print_tool_result(result)
  except Exception as e:
      print(f"Failed to call tool '{tool_name}': {e}")
  \<close>
\<close>

definition cmd_call_tool ::
  "('j, 'x) env \<Rightarrow> string \<Rightarrow> 'j \<Rightarrow> ('j, 'x) state \<Rightarrow> (exn + unit) \<times> ('j, 'x) state" where
  "cmd_call_tool E tool_name arguments st =
     (let st1 = py_print (''call tool '' @ tool_name @ '' ...'') st;
          a = (if truthy E arguments then arguments else empty_dict E)
      in case call_tool E tool_name a (xstate st1) of
           ((ps, r), x) \<Rightarrow>
             (let st2 = log_callbacks ps (st1\<lparr>xstate := x\<rparr>)
              in case (case r of
                         Inl e \<Rightarrow> (Inl e, st2)
                       | Inr result \<Rightarrow> pretty_print_tool_result E result st2) of
                   (Inl e, st3) \<Rightarrow>
                     if is_Exception (cls e)
                     then (Inr (), py_print (''Failed to call tool ''  @ [CHR 0x27] @ tool_name
                                               @ [CHR 0x27] @ '': '' @ msg e) st3)
                     else (Inl e, st3)
                 | (Inr _, st3) \<Rightarrow> (Inr (), st3)))"

section \<open>FastMcpClient.cmd_loop\<close>

text \<open>
  \<open>await\<close> applied to a coroutine gives its result; applied to anything else it raises
  \<open>TypeError\<close>. A call of an \<open>async def\<close> is awaitable; a call of a plain \<open>def\<close>
  runs the body and yields its return value, here \<open>None\<close>.
\<close>

datatype 'a operand = Awaitable 'a | NotAwaitable string

definition py_await :: "'a operand \<Rightarrow> exn + 'a" where
  "py_await r =
     (case r of
        Awaitable v \<Rightarrow> Inr v
      | NotAwaitable ty \<Rightarrow>
          Inl (Exn TypeError (''object '' @ ty @ '' can'' @ [CHR 0x27] @ ''t be used in ''
                                @ [CHR 0x27] @ ''await'' @ [CHR 0x27] @ '' expression'')))"

text \<open>
  \<^verbatim>\<open>
  while True:
      command = input(prompt).strip()
      if not command:
          continue
      elif command == "list":
          await self.cmd_list_tools()
      elif command == "dump":
          await self.cmd_dump_tools_schema()
      elif command == "quit":
          break
      elif command.isdigit():
          tool_name = await self.cmd_show_tool_schema(int(command)-1)
          if tool_name:
              arguments = self.input_json(f"\n\ninput call tool {tool_name} json args (support multiple lines json) :\n")
              await self.cmd_call_tool(tool_name, arguments)
      else:
          print("Unknown command")
  \<close>
  \<open>cmd_list_tools\<close> is declared with \<open>def\<close>, the other three methods with
  \<open>async def\<close>. \<open>cmd_iteration\<close> is one pass through the body of the loop; the
  prompt, a fixed text beyond code point 255 in the source, is a parameter.
\<close>

datatype flow = Next | Break

definition args_prompt :: "string \<Rightarrow> string" where
  "args_prompt tool_name =
     [CHR 0x0A, CHR 0x0A] @ ''input call tool '' @ tool_name
       @ '' json args (support multiple lines json) :'' @ [CHR 0x0A]"

definition cmd_iteration ::
  "('j, 'x) env \<Rightarrow> string \<Rightarrow> ('j, 'x) state \<Rightarrow> (exn + flow) \<times> ('j, 'x) state" where
  "cmd_iteration E prompt st =
     (case py_input prompt st of
        (Inl e, st1) \<Rightarrow> (Inl e, st1)
      | (Inr line, st1) \<Rightarrow>
          (let command = strip line
           in if command = [] then (Inr Next, st1)
              else if command = ''list'' then
                (let st2 = cmd_list_tools st1
                 in case py_await (NotAwaitable ''NoneType'' :: unit operand) of
                      Inl e \<Rightarrow> (Inl e, st2)
                    | Inr _ \<Rightarrow> (Inr Next, st2))
              else if command = ''dump'' then
                (case cmd_dump_tools_schema E st1 of
                   (Inl e, st2) \<Rightarrow> (Inl e, st2)
                 | (Inr _, st2) \<Rightarrow> (Inr Next, st2))
              else if command = ''quit'' then (Inr Break, st1)
              else if isdigit command then
                (case py_int command of
                   Inl e \<Rightarrow> (Inl e, st1)
                 | Inr n \<Rightarrow>
                     (case cmd_show_tool_schema E (n - 1) st1 of
                        (None, st2) \<Rightarrow> (Inr Next, st2)
                      | (Some tool_name, st2) \<Rightarrow>
                          if tool_name = [] then (Inr Next, st2)
                          else (case input_json E (args_prompt tool_name) st2 of
                                  (Inl e, st3) \<Rightarrow> (Inl e, st3)
                                | (Inr arguments, st3) \<Rightarrow>
                                    (case cmd_call_tool E tool_name arguments st3 of
                                       (Inl e, st4) \<Rightarrow> (Inl e, st4)
                                     | (Inr _, st4) \<Rightarrow> (Inr Next, st4)))))
              else (Inr Next, py_print ''Unknown command'' st1)))"

subsection \<open>What the commands leave alone\<close>

text \<open>
  No command puts a line back on standard input, and none touches the catalog or the
  client context. The loop below stops for that reason: every pass reads a line.
\<close>

lemma py_print_fields [simp]:
  "inp (py_print s st) = inp st" "tools (py_print s st) = tools st"
  "connected (py_print s st) = connected st" "xstate (py_print s st) = xstate st"
  "out (py_print s st) = out st @ [Print s]"
  by (simp_all add: py_print_def)

lemma input_json_loop_inp:
  "length (inp (snd (input_json_loop E p b st))) \<le> length (inp st)"
proof (induction E p b st rule: input_json_loop.induct)
  case (1 E prompt lines st)
  show ?case
  proof (cases "inp st")
    case Nil
    then show ?thesis
      by (subst input_json_loop.simps) (simp add: py_input_def)
  next
    case (Cons l ls)
    let ?st1 = "st\<lparr>out := out st @ [Prompt (if lines = [] then prompt else [])], inp := ls\<rparr>"
    have pi: "py_input (if lines = [] then prompt else []) st = (Inr l, ?st1)"
      using Cons by (simp add: py_input_def)
    show ?thesis
      using "1.IH"(1)[OF pi[symmetric] refl refl] "1.IH"(2)[OF pi[symmetric] refl refl]
      apply (subst input_json_loop.simps)
      apply (simp add: pi Let_def Cons split: sum.splits)
      apply (auto)
      done
  qed
qed

lemma log_callbacks_fields [simp]:
  "inp (log_callbacks ps st) = inp st"
  "tools (log_callbacks ps st) = tools st"
  "connected (log_callbacks ps st) = connected st"
  "xstate (log_callbacks ps st) = xstate st"
  by (induction ps arbitrary: st) (simp_all add: log_callback_def)

lemma print_rows_fields [simp]:
  "inp (print_rows xs st) = inp st"
  "tools (print_rows xs st) = tools st"
  "connected (print_rows xs st) = connected st"
  "xstate (print_rows xs st) = xstate st"
  by (induction xs st rule: print_rows.induct) simp_all

lemma cmd_list_tools_fields [simp]:
  "inp (cmd_list_tools st) = inp st" "tools (cmd_list_tools st) = tools st"
  "connected (cmd_list_tools st) = connected st" "xstate (cmd_list_tools st) = xstate st"
  by (simp_all add: cmd_list_tools_def)

lemma print_contents_fields:
  "inp (snd (print_contents E cs st)) = inp st \<and> tools (snd (print_contents E cs st)) = tools st
   \<and> connected (snd (print_contents E cs st)) = connected st
   \<and> xstate (snd (print_contents E cs st)) = xstate st"
  by (induction cs arbitrary: st) (auto split: sum.splits)

lemma pretty_print_fields:
  "inp (snd (pretty_print_tool_result E r st)) = inp st \<and> tools (snd (pretty_print_tool_result E r st)) = tools st
   \<and> connected (snd (pretty_print_tool_result E r st)) = connected st
   \<and> xstate (snd (pretty_print_tool_result E r st)) = xstate st"
  by (cases r) (simp_all add: pretty_print_tool_result_def print_contents_fields)

lemma cmd_call_tool_fields:
  "inp (snd (cmd_call_tool E n a st)) = inp st \<and> tools (snd (cmd_call_tool E n a st)) = tools st
   \<and> connected (snd (cmd_call_tool E n a st)) = connected st"
proof -
  obtain ps r x where ct: "call_tool E n (if truthy E a then a else empty_dict E) (xstate st) = ((ps, r), x)"
    by (metis prod.exhaust)
  show ?thesis
  proof (cases r)
    case (Inl e)
    then show ?thesis using ct by (simp add: cmd_call_tool_def Let_def)
  next
    case (Inr res)
    let ?st2 = "log_callbacks ps (py_print (''call tool '' @ n @ '' ...'') st\<lparr>xstate := x\<rparr>)"
    obtain r3 st3 where pp: "pretty_print_tool_result E res ?st2 = (r3, st3)"
      by (metis prod.exhaust)
    with pretty_print_fields[of E res ?st2]
    have "inp st3 = inp st \<and> tools st3 = tools st \<and> connected st3 = connected st" by simp
    then show ?thesis using ct Inr pp
      by (cases r3) (simp_all add: cmd_call_tool_def Let_def)
  qed
qed

lemma cmd_dump_fields:
  "inp (snd (cmd_dump_tools_schema E st)) = inp st \<and> tools (snd (cmd_dump_tools_schema E st)) = tools st
   \<and> connected (snd (cmd_dump_tools_schema E st)) = connected st"
  by (simp add: cmd_dump_tools_schema_def Let_def split: prod.splits sum.splits)

lemma cmd_show_fields:
  "inp (snd (cmd_show_tool_schema E i st)) = inp st \<and> tools (snd (cmd_show_tool_schema E i st)) = tools st
   \<and> connected (snd (cmd_show_tool_schema E i st)) = connected st"
  by (simp add: cmd_show_tool_schema_def Let_def)


lemma input_json_inpD:
  "input_json E p st = (r, st') \<Longrightarrow> length (inp st') \<le> length (inp st)"
  using input_json_loop_inp[of E p "[]" st] by (simp add: input_json_def)

lemma cmd_call_tool_inpD:
  "cmd_call_tool E n a st = (r, st') \<Longrightarrow> inp st' = inp st"
  using cmd_call_tool_fields[of E n a st] by simp

lemma cmd_dump_inpD:
  "cmd_dump_tools_schema E st = (r, st') \<Longrightarrow> inp st' = inp st"
  using cmd_dump_fields[of E st] by simp

lemma cmd_show_inpD:
  "cmd_show_tool_schema E i st = (r, st') \<Longrightarrow> inp st' = inp st"
  using cmd_show_fields[of E i st] by simp

lemma cmd_iteration_inp:
  assumes "cmd_iteration E p st = (Inr f, st')"
  shows "length (inp st') < length (inp st)"
proof (cases "inp st")
  case Nil
  with assms show ?thesis by (simp add: cmd_iteration_def py_input_def)
next
  case (Cons l ls)
  let ?st1 = "st\<lparr>out := out st @ [Prompt p], inp := ls\<rparr>"
  have pi: "py_input p st = (Inr l, ?st1)" using Cons by (simp add: py_input_def)
  have le: "length (inp st') \<le> length (inp ?st1)"
    using assms
    by (auto simp: cmd_iteration_def pi Let_def py_await_def
        split: if_splits sum.splits prod.splits option.splits
        dest!: input_json_inpD cmd_call_tool_inpD cmd_dump_inpD cmd_show_inpD)
  then show ?thesis using Cons by simp
qed

subsection \<open>The loop\<close>

function cmd_loop ::
  "('j, 'x) env \<Rightarrow> string \<Rightarrow> ('j, 'x) state \<Rightarrow> (exn + unit) \<times> ('j, 'x) state" where
  "cmd_loop E prompt st =
     (case cmd_iteration E prompt st of
        (Inl e, st1) \<Rightarrow> (Inl e, st1)
      | (Inr Break, st1) \<Rightarrow> (Inr (), st1)
      | (Inr Next, st1) \<Rightarrow> cmd_loop E prompt st1)"
  by pat_completeness auto
termination
  by (relation "measure (\<lambda>(E, prompt, st). length (inp st))")
     (auto dest: cmd_iteration_inp [OF sym])

declare cmd_loop.simps [simp del]

section \<open>FastMcpClient.connect_and_loop\<close>

text \<open>
  \<^verbatim>\<open>
  async with self.client:
      self.tools = await self.client.list_tools()
      self.cmd_list_tools()
      await self.cmd_loop()
  \<close>
  Leaving the \<open>async with\<close> block closes the client, also when the block raised.
\<close>

definition connect_and_loop ::
  "('j, 'x) env \<Rightarrow> config \<Rightarrow> string \<Rightarrow> ('j, 'x) state \<Rightarrow> (exn + unit) \<times> ('j, 'x) state" where
  "connect_and_loop E cfg prompt st =
     (case client_enter E cfg (xstate st) of
        (Inl e, x) \<Rightarrow> (Inl e, st\<lparr>xstate := x\<rparr>)
      | (Inr _, x) \<Rightarrow>
          (let st1 = st\<lparr>xstate := x, connected := True\<rparr>
           in case (case list_tools E (xstate st1) of
                      (Inl e, x2) \<Rightarrow> (Inl e, st1\<lparr>xstate := x2\<rparr>)
                    | (Inr ts, x2) \<Rightarrow>
                        cmd_loop E prompt (cmd_list_tools (st1\<lparr>xstate := x2, tools := ts\<rparr>))) of
                (r, st2) \<Rightarrow> (r, st2\<lparr>xstate := client_exit E (xstate st2), connected := False\<rparr>)))"

section \<open>main\<close>

record cli_args =
  arg_url :: string
  arg_type :: string
  arg_debug :: bool
  arg_header :: "string list"

definition SAMPLE :: string where
  "SAMPLE = [CHR 0x0A] @ ''sample:'' @ [CHR 0x0A]
     @ ''any_client.py -type sse -url http://your.com/sse'' @ [CHR 0x0A]
     @ ''any_client.py -type http -url http://your.com/mcp'' @ [CHR 0x0A]
     @ ''any_client.py -type stdio -url '' @ [CHR 0x22]
     @ ''npx -y @modelcontextprotocol/server-sequential-thinking'' @ [CHR 0x22, CHR 0x0A]"

text \<open>
  \<^verbatim>\<open>
  headers = {}
  for header in args.header:
      parts = header.split(":", 1)
      if len(parts) == 2:
          key = parts[0].strip()
          val = parts[1].strip()
          print(f"Use Header {key}:{val}")
          headers[key] = val
      else:
          print(f"Invalid header format: {header}")
  \<close>
  The dict is an association list in insertion order; \<open>AList.update\<close> replaces the
  value of a key in place and appends a new key, as assignment to a dict entry does.
\<close>

fun parse_headers ::
  "string list \<Rightarrow> (string \<times> string) list \<Rightarrow> ('j, 'x) state
     \<Rightarrow> (string \<times> string) list \<times> ('j, 'x) state" where
  "parse_headers [] hdrs st = (hdrs, st)"
| "parse_headers (header # rest) hdrs st =
     (let parts = split_max1 (CHR '':'') header
      in if length parts = 2
         then (let key = strip (parts ! 0);
                   val = strip (parts ! 1)
               in parse_headers rest (AList.update key val hdrs)
                    (py_print (''Use Header '' @ key @ '':'' @ val) st))
         else parse_headers rest hdrs (py_print (''Invalid header format: '' @ header) st))"

text \<open>
  \<^verbatim>\<open>
  if not url:
      parser.print_help()
      print(SAMPLE)
      print(f"\n\ninput url (sse or streamable):")
      url = input().strip()
      if not url.startswith("http"):
          print("URL string must start with http")
          await asyncio.sleep(1)
          return
  \<close>
  \<open>prompt_url\<close> is this block: \<open>None\<close> is the \<open>return\<close>, \<open>Some\<close> the url to go on
  with. The one second of sleep is not modelled.
\<close>

definition prompt_url ::
  "('j, 'x) env \<Rightarrow> ('j, 'x) state \<Rightarrow> (exn + string option) \<times> ('j, 'x) state" where
  "prompt_url E st =
     (let st1 = py_print (help_text E) st;
          st2 = py_print SAMPLE st1;
          st3 = py_print ([CHR 0x0A, CHR 0x0A] @ ''input url (sse or streamable):'') st2
      in case py_input [] st3 of
           (Inl e, st4) \<Rightarrow> (Inl e, st4)
         | (Inr line, st4) \<Rightarrow>
             (let u = strip line
              in if \<not> startswith u ''http''
                 then (Inr None, py_print ''URL string must start with http'' st4)
                 else (Inr (Some u), st4)))"

text \<open>
  \<^verbatim>\<open>
  if not mcp_type:
      if "sse" in url:
          mcp_type = "sse"
      else:
          mcp_type = "http"
  if args.debug:
      logging.basicConfig(...)
  headers = ... (above)
  client = FastMcpClient(url, mcp_type, headers)
  await client.connect_and_loop()
  \<close>
\<close>

definition main_with_url ::
  "('j, 'x) env \<Rightarrow> string \<Rightarrow> cli_args \<Rightarrow> string \<Rightarrow> ('j, 'x) state
     \<Rightarrow> (exn + unit) \<times> ('j, 'x) state" where
  "main_with_url E prompt a u st =
     (let mcp_type = (if arg_type a = [] then (if contains u ''sse'' then ''sse'' else ''http'')
                      else arg_type a);
          st1 = (if arg_debug a then st\<lparr>debug_logging := True\<rparr> else st)
      in case parse_headers (arg_header a) [] st1 of
           (hdrs, st2) \<Rightarrow>
             (case FastMcpClient_init E u mcp_type hdrs st2 of
                (cfg, st3) \<Rightarrow> connect_and_loop E cfg prompt st3))"

definition main ::
  "('j, 'x) env \<Rightarrow> string \<Rightarrow> cli_args \<Rightarrow> ('j, 'x) state \<Rightarrow> (exn + unit) \<times> ('j, 'x) state" where
  "main E prompt a st =
     (if arg_url a = []
      then (case prompt_url E st of
              (Inl e, st1) \<Rightarrow> (Inl e, st1)
            | (Inr None, st1) \<Rightarrow> (Inr (), st1)
            | (Inr (Some u), st1) \<Rightarrow> main_with_url E prompt a u st1)
      else main_with_url E prompt a (arg_url a) st)"

text \<open>
  \<^verbatim>\<open>
  try:
      asyncio.run(main())
  except KeyboardInterrupt:
      print()
  except EOFError:
      print()
  \<close>
\<close>

definition run ::
  "('j, 'x) env \<Rightarrow> string \<Rightarrow> cli_args \<Rightarrow> ('j, 'x) state \<Rightarrow> (exn + unit) \<times> ('j, 'x) state" where
  "run E prompt a st =
     (case main E prompt a st of
        (Inl e, st1) \<Rightarrow>
          if cls e = KeyboardInterrupt \<or> cls e = EOFError then (Inr (), py_print [] st1)
          else (Inl e, st1)
      | (Inr u, st1) \<Rightarrow> (Inr u, st1))"

section \<open>A small environment to run the model on\<close>

text \<open>
  JSON documents are known by their text. \<open>example_loads\<close> accepts the empty object and
  the object with the one entry \<open>a\<close>, \<open>example_dumps\<close> writes them with the given
  indentation; the server has the tools \<open>echo\<close> and \<open>add\<close>, and every call of a
  tool other than \<open>echo\<close> fails. The state of the environment counts the calls.
\<close>

definition obj_a :: string where
  "obj_a = ''{'' @ [CHR 0x22] @ ''a'' @ [CHR 0x22] @ '':1}''"

definition example_loads :: "string \<Rightarrow> exn + string" where
  "example_loads s =
     (if s = ''{}'' \<or> s = obj_a then Inr s
      else Inl (Exn JSONDecodeError ''Expecting value: line 1 column 1 (char 0)''))"

definition example_dumps :: "string \<Rightarrow> nat \<Rightarrow> bool \<Rightarrow> string" where
  "example_dumps v indent ensure_ascii =
     (if v = obj_a
      then ''{'' @ [CHR 0x0A] @ replicate indent (CHR '' '') @ [CHR 0x22] @ ''a'' @ [CHR 0x22]
             @ '': 1'' @ [CHR 0x0A] @ ''}''
      else v)"

definition example_tools :: "string tool list" where
  "example_tools = [\<lparr>name = ''echo'', model_dump = ''{}''\<rparr>, \<lparr>name = ''add'', model_dump = ''{}''\<rparr>]"

definition example_call_tool ::
  "string \<Rightarrow> string \<Rightarrow> nat \<Rightarrow> (progress list \<times> (exn + tool_result)) \<times> nat" where
  "example_call_tool tool_name arguments n =
     (if tool_name = ''echo''
      then (([], Inr (HasContent [\<lparr>ctype = ''text'', ctext = arguments, cstr = arguments\<rparr>])), Suc n)
      else (([\<lparr>p_progress = ''1'', p_total = ''2'', p_message = ''working''\<rparr>],
             Inl (Exn (OtherException ''ToolError'') ''boom'')), Suc n))"

definition text_content :: "string \<Rightarrow> content" where
  "text_content s = \<lparr>ctype = ''text'', ctext = s, cstr = ''TextContent''\<rparr>"

definition example_env :: "(string, nat) env" where
  "example_env =
     \<lparr>loads = example_loads,
      dumps = example_dumps,
      jlist = concat,
      unprintable = (\<lambda>v. False),
      truthy = (\<lambda>v. v \<noteq> ''{}''),
      empty_dict = ''{}'',
      str_config = (\<lambda>cfg. ''config''),
      client_enter = (\<lambda>cfg n. (Inr (), n)),
      client_exit = (\<lambda>n. n),
      list_tools = (\<lambda>n. (Inr example_tools, n)),
      call_tool = example_call_tool,
      write_file = (\<lambda>path s n. (Inr (), n)),
      help_text = ''usage: any_client.py''\<rparr>"

text \<open>
  \<open>json.loads\<close> converts an integer literal with \<open>int\<close>, so the limit on the number
  of digits applies to it; \<open>number_loads\<close> is \<open>example_loads\<close> with the integer
  literals added.
\<close>

definition is_int_literal :: "string \<Rightarrow> bool" where
  "is_int_literal s = (s \<noteq> [] \<and> list_all isdecimal_char s \<and> (length s = 1 \<or> hd s \<noteq> CHR ''0''))"

definition number_loads :: "string \<Rightarrow> exn + string" where
  "number_loads s =
     (if is_int_literal s then (case py_int s of Inl e \<Rightarrow> Inl e | Inr n \<Rightarrow> Inr s)
      else example_loads s)"

definition number_env :: "(string, nat) env" where
  "number_env = example_env\<lparr>loads := number_loads\<rparr>"

text \<open>A segment that is not text, and the object with the entry \<open>a\<close> as it is dumped.\<close>

definition image_content :: content where
  "image_content = \<lparr>ctype = ''image'', ctext = [], cstr = ''ImageContent''\<rparr>"

definition pretty_a :: string where
  "pretty_a = ''{'' @ [CHR 0x0A] @ ''  '' @ [CHR 0x22] @ ''a'' @ [CHR 0x22] @ '': 1'' @ [CHR 0x0A] @ ''}''"

definition example_state :: "(string, nat) state" where
  "example_state =
     \<lparr>inp = [], out = [], tools = example_tools, connected = True, debug_logging = False,
      xstate = 0\<rparr>"

text \<open>The state of a process that has just started.\<close>

definition example_start :: "(string, nat) state" where
  "example_start =
     \<lparr>inp = [], out = [], tools = [], connected = False, debug_logging = False, xstate = 0\<rparr>"

text \<open>The state after the command \<open>2\<close> and the arguments \<open>{}\<close> have been read.\<close>

definition example_after_args :: "(string, nat) state" where
  "example_after_args =
     example_state\<lparr>inp := [''quit''],
                   out := [Prompt ''> '', Print ''{}'', Prompt (args_prompt ''add'')]\<rparr>"

section \<open>Notions the properties are stated with\<close>

text \<open>
  \<open>buffers lines ls\<close> are the values of \<open>lines\<close> after the trimming of each pass, when
  the reader starts with \<open>lines\<close> and reads \<open>ls\<close>: what it has accumulated after each
  line. A buffer that does not start with a brace is dropped for the next pass.
\<close>

fun buffers :: "string \<Rightarrow> string list \<Rightarrow> string list" where
  "buffers lines [] = []"
| "buffers lines (line # rest) =
     (let lines1 = strip (lines @ line)
      in lines1 # buffers (if startswith lines1 ''{'' then lines1 else []) rest)"

text \<open>A text that \<open>json.loads\<close> refuses with \<open>JSONDecodeError\<close>.\<close>

definition not_json :: "('j, 'x) env \<Rightarrow> string \<Rightarrow> bool" where
  "not_json E s = (case loads E s of Inl e \<Rightarrow> cls e = JSONDecodeError | Inr _ \<Rightarrow> False)"

text \<open>
  The split as the specification words it: the command is what precedes the first run of
  whitespace, the remainder is what follows that run, and the arguments are the remainder
  split on whitespace.
\<close>

definition spec_command :: "string \<Rightarrow> string" where
  "spec_command rawTarget = takeWhile (\<lambda>c. \<not> isspace c) rawTarget"

definition spec_remainder :: "string \<Rightarrow> string" where
  "spec_remainder rawTarget = dropWhile isspace (dropWhile (\<lambda>c. \<not> isspace c) rawTarget)"

definition spec_args :: "string \<Rightarrow> string list" where
  "spec_args rawTarget = split_ws (spec_remainder rawTarget)"

text \<open>
  The state after a call of \<open>tool_name\<close> from \<open>st\<close> that delivered the notifications
  \<open>ps\<close> and then raised \<open>e\<close>, leaving the environment in \<open>x\<close>.
\<close>

definition failed_call_state ::
  "string \<Rightarrow> progress list \<Rightarrow> exn \<Rightarrow> 'x \<Rightarrow> ('j, 'x) state \<Rightarrow> ('j, 'x) state" where
  "failed_call_state tool_name ps e x st =
     py_print (''Failed to call tool '' @ [CHR 0x27] @ tool_name @ [CHR 0x27] @ '': '' @ msg e)
       (log_callbacks ps ((py_print (''call tool '' @ tool_name @ '' ...'') st)\<lparr>xstate := x\<rparr>))"

text \<open>
  What is printed for a segment whose rendering raises nothing, when that is the case, and
  what is printed for a list of such segments.
\<close>

definition rendered :: "('j, 'x) env \<Rightarrow> content \<Rightarrow> string" where
  "rendered E c =
     (if ctype c = ''text''
      then (case loads E (ctext c) of Inr v \<Rightarrow> dumps E v 2 False | Inl e \<Rightarrow> ctext c)
      else cstr c)"

definition quiet :: "('j, 'x) env \<Rightarrow> content \<Rightarrow> bool" where
  "quiet E c =
     (ctype c \<noteq> ''text'' \<or>
      (case loads E (ctext c) of Inr v \<Rightarrow> \<not> unprintable E v | Inl e \<Rightarrow> cls e = JSONDecodeError))"

definition shown :: "('j, 'x) env \<Rightarrow> content list \<Rightarrow> event list" where
  "shown E cs = map (\<lambda>c. Print (rendered E c)) cs"

text \<open>What the user has seen when an endpoint entered at the prompt is rejected.\<close>

definition url_rejected :: "('j, 'x) env \<Rightarrow> event list" where
  "url_rejected E =
     [Print (help_text E), Print SAMPLE,
      Print ([CHR 0x0A, CHR 0x0A] @ ''input url (sse or streamable):''),
      Prompt [], Print ''URL string must start with http'']"

section \<open>The reader of JSON arguments\<close>

text \<open>One pass of the reader, and the reader at the end of input.\<close>

lemma input_json_loop_step:
  assumes "inp st = line # rest"
  shows "input_json_loop E prompt lines st =
     (let st1 = st\<lparr>out := out st @ [Prompt (if lines = [] then prompt else [])], inp := rest\<rparr>;
          lines1 = strip (lines @ line)
      in if \<not> startswith lines1 ''{''
         then input_json_loop E prompt [] (py_print ''invalid json format'' st1)
         else (case loads E lines1 of
                 Inr v \<Rightarrow> (Inr v, st1)
               | Inl e \<Rightarrow> if cls e = JSONDecodeError then input_json_loop E prompt lines1 st1
                          else (Inl e, st1)))"
  using assms by (subst input_json_loop.simps) (simp add: py_input_def Let_def)

lemma input_json_loop_eof:
  assumes "inp st = []"
  shows "input_json_loop E prompt lines st =
     (Inl (Exn EOFError ''EOF when reading a line''),
      st\<lparr>out := out st @ [Prompt (if lines = [] then prompt else [])]\<rparr>)"
  using assms by (subst input_json_loop.simps) (simp add: py_input_def Let_def)

lemma length_buffers [simp]: "length (buffers lines ls) = length ls"
  by (induction ls arbitrary: lines) (simp_all add: Let_def)

lemma buffers_take: "buffers lines (take k ls) = take k (buffers lines ls)"
proof (induction ls arbitrary: lines k)
  case Nil
  show ?case by simp
next
  case (Cons l ls)
  show ?case by (cases k) (simp_all add: Let_def Cons)
qed

lemma input_json_loop_returns:
  assumes "ls \<noteq> []"
    and "\<forall>b \<in> set (butlast (buffers lines ls)). not_json E b"
    and "startswith (last (buffers lines ls)) ''{''"
    and "loads E (last (buffers lines ls)) = Inr v"
    and "inp st = ls @ rest"
  shows "\<exists>st'. input_json_loop E prompt lines st = (Inr v, st') \<and> inp st' = rest"
  using assms
proof (induction ls arbitrary: lines st)
  case Nil
  then show ?case by simp
next
  case (Cons l ls)
  let ?b = "strip (lines @ l)"
  let ?st1 = "st\<lparr>out := out st @ [Prompt (if lines = [] then prompt else [])], inp := ls @ rest\<rparr>"
  have step: "inp st = l # (ls @ rest)" using Cons.prems(5) by simp
  show ?case
  proof (cases "ls = []")
    case True
    with Cons.prems have "startswith ?b ''{''" "loads E ?b = Inr v" by (simp_all add: Let_def)
    then show ?thesis using True
      by (simp add: input_json_loop_step [OF step] Let_def)
  next
    case False
    let ?n = "if startswith ?b ''{'' then ?b else []"
    have bl: "buffers ?n ls \<noteq> []" using False by (cases ls) (simp_all add: Let_def)
    have nj: "not_json E ?b" and rest_nj: "\<forall>b \<in> set (butlast (buffers ?n ls)). not_json E b"
      using Cons.prems(2) bl by (simp_all add: Let_def)
    have l1: "startswith (last (buffers ?n ls)) ''{''" and l2: "loads E (last (buffers ?n ls)) = Inr v"
      using Cons.prems(3,4) bl by (simp_all add: Let_def)
    show ?thesis
    proof (cases "startswith ?b ''{''")
      case True
      have "\<exists>st'. input_json_loop E prompt ?b ?st1 = (Inr v, st') \<and> inp st' = rest"
        using Cons.IH [of ?b ?st1] False rest_nj l1 l2 True by simp
      then show ?thesis using True nj
        by (auto simp: input_json_loop_step [OF step] Let_def not_json_def split: sum.splits)
    next
      case nb: False
      have "\<exists>st'. input_json_loop E prompt [] (py_print ''invalid json format'' ?st1) = (Inr v, st') \<and> inp st' = rest"
        using Cons.IH [of "[]" "py_print ''invalid json format'' ?st1"] False rest_nj l1 l2 nb by simp
      then show ?thesis using nb
        by (simp add: input_json_loop_step [OF step] Let_def)
    qed
  qed
qed

lemma input_json_loop_starves:
  assumes "\<forall>b \<in> set (buffers lines ls). not_json E b"
    and "inp st = ls"
  shows "\<exists>st'. input_json_loop E prompt lines st = (Inl (Exn EOFError ''EOF when reading a line''), st')"
  using assms
proof (induction ls arbitrary: lines st)
  case Nil
  then show ?case by (simp add: input_json_loop_eof)
next
  case (Cons l ls)
  let ?b = "strip (lines @ l)"
  let ?st1 = "st\<lparr>out := out st @ [Prompt (if lines = [] then prompt else [])], inp := ls\<rparr>"
  let ?n = "if startswith ?b ''{'' then ?b else []"
  have step: "inp st = l # ls" using Cons.prems(2) by simp
  have nj: "not_json E ?b" and rest_nj: "\<forall>b \<in> set (buffers ?n ls). not_json E b"
    using Cons.prems(1) by (simp_all add: Let_def)
  show ?case
  proof (cases "startswith ?b ''{''")
    case True
    have "\<exists>st'. input_json_loop E prompt ?b ?st1 = (Inl (Exn EOFError ''EOF when reading a line''), st')"
      using Cons.IH [of ?b ?st1] rest_nj True by simp
    then show ?thesis using True nj
      by (auto simp: input_json_loop_step [OF step] Let_def not_json_def split: sum.splits)
  next
    case False
    have "\<exists>st'. input_json_loop E prompt [] (py_print ''invalid json format'' ?st1) = (Inl (Exn EOFError ''EOF when reading a line''), st')"
      using Cons.IH [of "[]" "py_print ''invalid json format'' ?st1"] rest_nj False by simp
    then show ?thesis using False
      by (simp add: input_json_loop_step [OF step] Let_def)
  qed
qed

lemma set_take_butlast: "k < length xs \<Longrightarrow> set (take k xs) \<subseteq> set (butlast xs)"
  by (metis butlast_conv_take diff_Suc_1 less_Suc_eq_le set_take_subset_set_take Suc_pred' length_greater_0_conv list.size(3) not_less_zero)

text \<open>
  C2. When the accumulation after the last of the lines \<open>ls\<close> is a JSON object that
  parses to \<open>v\<close>, and no accumulation after fewer lines parses as JSON, the reader
  returns \<open>v\<close> when it has read exactly the lines \<open>ls\<close> (the lines \<open>rest\<close> that follow
  are left unread), and with any smaller number of these lines it does not return: it
  waits for a line until the input ends. One line is the case of a list of length one.
\<close>

theorem input_json_returns_after_last_line:
  assumes "ls \<noteq> []"
    and "\<forall>b \<in> set (butlast (buffers [] ls)). not_json E b"
    and "startswith (last (buffers [] ls)) ''{''"
    and "loads E (last (buffers [] ls)) = Inr v"
  shows "(\<exists>st'. input_json E prompt (st\<lparr>inp := ls @ rest\<rparr>) = (Inr v, st') \<and> inp st' = rest)
       \<and> (\<forall>k < length ls. \<exists>st'. input_json E prompt (st\<lparr>inp := take k ls\<rparr>)
              = (Inl (Exn EOFError ''EOF when reading a line''), st'))"
proof (intro conjI allI impI)
  show "\<exists>st'. input_json E prompt (st\<lparr>inp := ls @ rest\<rparr>) = (Inr v, st') \<and> inp st' = rest"
    unfolding input_json_def
    by (rule input_json_loop_returns [OF assms]) simp
next
  fix k assume k: "k < length ls"
  then have "set (buffers [] (take k ls)) \<subseteq> set (butlast (buffers [] ls))"
    by (simp add: buffers_take set_take_butlast)
  with assms(2) have "\<forall>b \<in> set (buffers [] (take k ls)). not_json E b" by blast
  then show "\<exists>st'. input_json E prompt (st\<lparr>inp := take k ls\<rparr>)
              = (Inl (Exn EOFError ''EOF when reading a line''), st')"
    unfolding input_json_def
    by (rule input_json_loop_starves) simp
qed

theorem input_json_returns_after_last_line_witness:
  "(\<exists>st'. input_json example_env ''> '' (example_state\<lparr>inp := [''{'', ''}''] @ [''quit'']\<rparr>)
            = (Inr ''{}'', st') \<and> inp st' = [''quit''])
   \<and> (\<exists>st'. input_json example_env ''> '' (example_state\<lparr>inp := take 1 [''{'', ''}'']\<rparr>)
            = (Inl (Exn EOFError ''EOF when reading a line''), st'))"
proof -
  have b: "buffers [] [''{'', ''}''] = [''{'', ''{}'']"
    by (simp add: strip_def isspace_def startswith_def Let_def)
  have h1: "[''{'', ''}''] \<noteq> []" by simp
  have h2: "\<forall>b \<in> set (butlast (buffers [] [''{'', ''}''])). not_json example_env b"
    unfolding b by (simp add: not_json_def example_env_def example_loads_def obj_a_def)
  have h3: "startswith (last (buffers [] [''{'', ''}''])) ''{''"
    unfolding b by (simp add: startswith_def)
  have h4: "loads example_env (last (buffers [] [''{'', ''}''])) = Inr ''{}''"
    unfolding b by (simp add: example_env_def example_loads_def)
  have k: "(1::nat) < length [''{'', ''}'']" by simp
  show ?thesis
    using k input_json_returns_after_last_line
            [OF h1 h2 h3 h4, where prompt = "''> ''" and st = example_state and rest = "[''quit'']"]
    by blast
qed

lemma input_json_loop_out_prefix:
  "\<exists>evs. out (snd (input_json_loop E prompt lines st))
           = out st @ Prompt (if lines = [] then prompt else []) # evs"
proof (induction E prompt lines st rule: input_json_loop.induct)
  case (1 E prompt lines st)
  show ?case
  proof (cases "inp st")
    case Nil
    then show ?thesis by (simp add: input_json_loop_eof)
  next
    case (Cons l ls)
    let ?st1 = "st\<lparr>out := out st @ [Prompt (if lines = [] then prompt else [])], inp := ls\<rparr>"
    have pi: "py_input (if lines = [] then prompt else []) st = (Inr l, ?st1)"
      using Cons by (simp add: py_input_def)
    note IH1 = "1.IH"(1) [OF pi [symmetric] refl refl]
    note IH2 = "1.IH"(2) [OF pi [symmetric] refl refl]
    show ?thesis
    proof (cases "startswith (strip (lines @ l)) ''{''")
      case False
      with IH1 show ?thesis
        by (auto simp: input_json_loop_step [OF Cons] Let_def)
    next
      case True
      show ?thesis
      proof (cases "loads E (strip (lines @ l))")
        case (Inr v)
        with True show ?thesis by (simp add: input_json_loop_step [OF Cons] Let_def)
      next
        case (Inl e)
        show ?thesis
        proof (cases "cls e = JSONDecodeError")
          case d: True
          from IH2 [OF _ Inl d] True
          obtain evs where "out (snd (input_json_loop E prompt (strip (lines @ l)) ?st1))
             = out ?st1 @ Prompt (if strip (lines @ l) = [] then prompt else []) # evs"
            by auto
          then show ?thesis using True Inl d
            by (simp add: input_json_loop_step [OF Cons] Let_def)
        next
          case False
          with True Inl show ?thesis by (simp add: input_json_loop_step [OF Cons] Let_def)
        qed
      qed
    qed
  qed
qed

lemma input_json_loop_loads_cong:
  assumes "\<And>s. startswith s ''{'' \<Longrightarrow> loads E' s = loads E s"
  shows "input_json_loop E' prompt lines st = input_json_loop E prompt lines st"
  using assms
proof (induction E prompt lines st rule: input_json_loop.induct)
  case (1 E prompt lines st)
  show ?case
  proof (cases "inp st")
    case Nil
    then show ?thesis by (simp add: input_json_loop_eof)
  next
    case (Cons l ls)
    let ?b = "strip (lines @ l)"
    let ?st1 = "st\<lparr>out := out st @ [Prompt (if lines = [] then prompt else [])], inp := ls\<rparr>"
    have pi: "py_input (if lines = [] then prompt else []) st = (Inr l, ?st1)"
      using Cons by (simp add: py_input_def)
    note IH1 = "1.IH"(1) [OF pi [symmetric] refl refl]
    note IH2 = "1.IH"(2) [OF pi [symmetric] refl refl]
    show ?thesis
    proof (cases "startswith ?b ''{''")
      case False
      with IH1 [OF _ "1.prems"] show ?thesis
        by (simp add: input_json_loop_step [OF Cons] Let_def)
    next
      case True
      then have eq: "loads E' ?b = loads E ?b" by (rule "1.prems")
      show ?thesis
      proof (cases "loads E ?b")
        case (Inr v)
        with True eq show ?thesis by (simp add: input_json_loop_step [OF Cons] Let_def)
      next
        case (Inl e)
        show ?thesis
        proof (cases "cls e = JSONDecodeError")
          case d: True
          from IH2 [OF _ Inl d "1.prems"] True
          have "input_json_loop E' prompt ?b ?st1 = input_json_loop E prompt ?b ?st1" by simp
          then show ?thesis using True Inl d eq
            by (simp add: input_json_loop_step [OF Cons] Let_def)
        next
          case False
          with True Inl eq show ?thesis by (simp add: input_json_loop_step [OF Cons] Let_def)
        qed
      qed
    qed
  qed
qed

text \<open>
  C3. When the trimmed buffer does not start with a brace, the reader prints the error and
  goes on with the empty buffer: nothing of the rejected text is kept, and the next thing
  shown is the full prompt again. The buffer is not parsed: the outcome of the reader is
  the same whatever \<open>json.loads\<close> would have returned or raised for it.
\<close>

theorem input_json_rejects_before_parsing:
  assumes "\<not> startswith (strip (lines @ line)) ''{''"
  shows "input_json_loop E prompt lines (st\<lparr>inp := line # rest\<rparr>)
           = input_json_loop E prompt []
               (st\<lparr>inp := rest,
                    out := out st @ [Prompt (if lines = [] then prompt else []),
                                     Print ''invalid json format'']\<rparr>)
       \<and> (\<exists>evs. out (snd (input_json_loop E prompt lines (st\<lparr>inp := line # rest\<rparr>)))
             = out st @ [Prompt (if lines = [] then prompt else []),
                         Print ''invalid json format'', Prompt prompt] @ evs)
       \<and> input_json_loop (E\<lparr>loads := (loads E)(strip (lines @ line) := r)\<rparr>) prompt lines
            (st\<lparr>inp := line # rest\<rparr>)
           = input_json_loop E prompt lines (st\<lparr>inp := line # rest\<rparr>)"
proof -
  let ?st0 = "st\<lparr>inp := line # rest\<rparr>"
  let ?st2 = "st\<lparr>inp := rest,
                    out := out st @ [Prompt (if lines = [] then prompt else []),
                                     Print ''invalid json format'']\<rparr>"
  have step: "input_json_loop E prompt lines ?st0 = input_json_loop E prompt [] ?st2"
    using assms by (simp add: input_json_loop_step [of ?st0 line rest] Let_def py_print_def)
  obtain evs where "out (snd (input_json_loop E prompt [] ?st2)) = out ?st2 @ Prompt prompt # evs"
    using input_json_loop_out_prefix [of E prompt "[]" ?st2] by auto
  then have pre: "\<exists>evs. out (snd (input_json_loop E prompt lines ?st0))
             = out st @ [Prompt (if lines = [] then prompt else []),
                         Print ''invalid json format'', Prompt prompt] @ evs"
    by (simp add: step)
  have "input_json_loop (E\<lparr>loads := (loads E)(strip (lines @ line) := r)\<rparr>) prompt lines ?st0
           = input_json_loop E prompt lines ?st0"
    by (rule input_json_loop_loads_cong) (use assms in auto)
  with step pre show ?thesis by blast
qed

theorem input_json_rejects_before_parsing_witness:
  "\<not> startswith (strip ([] @ ''[1]'')) ''{''
   \<and> input_json_loop example_env ''> '' [] (example_state\<lparr>inp := [''[1]'', ''{}'']\<rparr>)
       = input_json_loop example_env ''> '' []
           (example_state\<lparr>inp := [''{}''],
              out := out example_state @ [Prompt ''> '', Print ''invalid json format'']\<rparr>)
   \<and> (\<exists>evs. out (snd (input_json_loop example_env ''> '' []
                         (example_state\<lparr>inp := [''[1]'', ''{}'']\<rparr>)))
             = out example_state @ [Prompt ''> '', Print ''invalid json format'', Prompt ''> ''] @ evs)
   \<and> input_json_loop (example_env\<lparr>loads := (loads example_env)(''[1]'' := Inr ''{}'')\<rparr>) ''> '' []
        (example_state\<lparr>inp := [''[1]'', ''{}'']\<rparr>)
       = input_json_loop example_env ''> '' [] (example_state\<lparr>inp := [''[1]'', ''{}'']\<rparr>)"
proof -
  have h: "\<not> startswith (strip ([] @ ''[1]'')) ''{''"
    by (simp add: strip_def isspace_def startswith_def)
  have s: "strip ([] @ ''[1]'') = ''[1]''"
    by (simp add: strip_def isspace_def)
  show ?thesis
    using h input_json_rejects_before_parsing
            [OF h, where E = example_env and prompt = "''> ''" and st = example_state
               and rest = "[''{}'']" and r = "Inr ''{}''", unfolded if_P [OF refl]]
    unfolding s by blast
qed

section \<open>The command loop on \<open>list\<close>\<close>

text \<open>
  C1. The claim: the command \<open>list\<close> prints the table of the catalog and the loop goes
  on to the next prompt; the loop ends only on \<open>quit\<close> or on a fatal condition of a
  lower layer. In the code the table is printed, and then the \<open>await\<close> of the value
  of the plain method \<open>cmd_list_tools\<close> raises \<open>TypeError\<close> in the loop itself: the
  loop ends with that exception, whatever the catalog, and the lines after \<open>list\<close>
  are never read.
\<close>

theorem list_command_raises_TypeError:
  "cmd_loop E prompt (st\<lparr>inp := ''list'' # rest\<rparr>) =
     (Inl (Exn TypeError (''object NoneType can'' @ [CHR 0x27] @ ''t be used in ''
                            @ [CHR 0x27] @ ''await'' @ [CHR 0x27] @ '' expression'')),
      cmd_list_tools (st\<lparr>out := out st @ [Prompt prompt], inp := rest\<rparr>))"
  by (subst cmd_loop.simps)
     (simp add: cmd_iteration_def py_input_def py_await_def strip_def isspace_def)

section \<open>Results with and without content\<close>

lemma print_contents_out_length:
  "length (out (snd (print_contents E cs st))) \<le> length (out st) + length cs"
proof (induction cs arbitrary: st)
  case Nil
  show ?case by simp
next
  case (Cons c cs)
  have "length (out (snd (print_contents E cs (py_print s st))))
          \<le> Suc (length (out st) + length cs)" for s
    using Cons [of "py_print s st"] by simp
  then show ?case by (auto split: sum.splits)
qed

text \<open>
  C10. A result that has the content attribute with an empty list of segments prints the
  banner and nothing else. The representation of the whole result is printed only for a
  result without the attribute. With the attribute, what follows the banner is at most one
  line per segment.
\<close>

theorem empty_content_prints_banner_only:
  "pretty_print_tool_result E (HasContent []) st = (Inr (), py_print banner st)
   \<and> pretty_print_tool_result E (NoContent s) st = (Inr (), py_print s (py_print banner st))
   \<and> length (out (snd (pretty_print_tool_result E (HasContent cs) st)))
       \<le> length (out st) + 1 + length cs"
  using print_contents_out_length [of E cs "py_print banner st"]
  by (simp add: pretty_print_tool_result_def)

section \<open>Indices outside the catalog\<close>

lemma isdigit_not_keyword:
  "isdigit c \<Longrightarrow> c \<noteq> [] \<and> c \<noteq> ''list'' \<and> c \<noteq> ''dump'' \<and> c \<noteq> ''quit''"
  by (auto simp: isdigit_def isdigit_char_def isdecimal_char_def)

lemma out_inp_update:
  "st\<lparr>out := a, inp := b\<rparr> = st\<lparr>inp := b, out := a\<rparr>"
  by (cases st) simp

text \<open>
  C4. For an index below zero or not below the length of the catalog,
  \<open>cmd_show_tool_schema\<close> returns no name, raises nothing and prints nothing. When the
  command is a decimal numeral whose value minus one is such an index, the pass through
  the loop shows the prompt it read the command at and nothing else, in particular no
  prompt for arguments, and the loop goes on with the next line. A numeral of more than
  4300 digits has no value: \<open>int\<close> raises for it, and no index is looked up.
\<close>

theorem out_of_range_index_does_nothing:
  assumes "index < 0 \<or> int (length (tools st)) \<le> index"
  shows "cmd_show_tool_schema E index st = (None, st)
       \<and> (isdigit (strip line) \<and> py_int (strip line) = Inr (index + 1) \<longrightarrow>
            cmd_iteration E prompt (st\<lparr>inp := line # rest\<rparr>)
              = (Inr Next, st\<lparr>inp := rest, out := out st @ [Prompt prompt]\<rparr>)
          \<and> cmd_loop E prompt (st\<lparr>inp := line # rest\<rparr>)
              = cmd_loop E prompt (st\<lparr>inp := rest, out := out st @ [Prompt prompt]\<rparr>))"
proof (intro conjI impI)
  show "cmd_show_tool_schema E index st = (None, st)"
    using assms by (simp add: cmd_show_tool_schema_def)
next
  assume a: "isdigit (strip line) \<and> py_int (strip line) = Inr (index + 1)"
  let ?st1 = "st\<lparr>inp := rest, out := out st @ [Prompt prompt]\<rparr>"
  have oob: "index < 0 \<or> int (length (tools ?st1)) \<le> index" using assms by simp
  have "cmd_show_tool_schema E index ?st1 = (None, ?st1)"
    using oob by (simp add: cmd_show_tool_schema_def)
  with a isdigit_not_keyword [of "strip line"]
  show it: "cmd_iteration E prompt (st\<lparr>inp := line # rest\<rparr>) = (Inr Next, ?st1)"
    by (simp add: cmd_iteration_def py_input_def Let_def out_inp_update)
  then show "cmd_loop E prompt (st\<lparr>inp := line # rest\<rparr>) = cmd_loop E prompt ?st1"
    by (subst cmd_loop.simps) simp
qed

theorem out_of_range_index_does_nothing_witness:
  "((2::int) < 0 \<or> int (length (tools example_state)) \<le> 2)
   \<and> cmd_show_tool_schema example_env 2 example_state = (None, example_state)
   \<and> isdigit (strip ''3'') \<and> py_int (strip ''3'') = Inr (2 + 1)
   \<and> cmd_iteration example_env ''> '' (example_state\<lparr>inp := ''3'' # [''quit'']\<rparr>)
        = (Inr Next, example_state\<lparr>inp := [''quit''], out := out example_state @ [Prompt ''> '']\<rparr>)"
proof -
  have h: "(2::int) < 0 \<or> int (length (tools example_state)) \<le> 2"
    by (simp add: example_state_def example_tools_def)
  have s: "strip ''3'' = ''3''" by (simp add: strip_def isspace_def)
  have d: "isdigit (strip ''3'') \<and> py_int (strip ''3'') = Inr (2 + 1)"
    unfolding s by (simp add: isdigit_def isdigit_char_def py_int_def isdecimal_char_def digit_val_def)
  show ?thesis
    using h d out_of_range_index_does_nothing
                [OF h, where E = example_env and line = "''3''" and prompt = "''> ''" and rest = "[''quit'']"]
    by blast
qed

section \<open>The configuration for stdio\<close>

lemma split_max1_eq:
  "split_max1 sep s =
     (if sep \<in> set s
      then [takeWhile (\<lambda>c. c \<noteq> sep) s, tl (dropWhile (\<lambda>c. c \<noteq> sep) s)]
      else [s])"
proof (cases "dropWhile (\<lambda>c. c \<noteq> sep) s")
  case Nil
  then have "sep \<notin> set s" by (auto simp: dropWhile_eq_Nil_conv)
  then show ?thesis unfolding split_max1_def Nil by simp
next
  case (Cons x rest)
  then have "sep \<in> set s"
    using dropWhile_eq_Nil_conv [of "\<lambda>c. c \<noteq> sep" s] by auto
  then show ?thesis unfolding split_max1_def Cons by simp
qed

lemma split_ws_dropWhile: "split_ws (dropWhile isspace s) = split_ws s"
  by (induction s) (simp_all add: split_ws_def)

lemma isspace_space: "isspace (CHR '' '')"
  by (simp add: isspace_def)

lemma first_space_is_first_whitespace:
  assumes "\<forall>c \<in> set (takeWhile (\<lambda>c. c \<noteq> CHR '' '') t). \<not> isspace c"
  shows "takeWhile (\<lambda>c. \<not> isspace c) t = takeWhile (\<lambda>c. c \<noteq> CHR '' '') t
       \<and> dropWhile (\<lambda>c. \<not> isspace c) t = dropWhile (\<lambda>c. c \<noteq> CHR '' '') t"
  using assms by (induction t) (auto simp: isspace_space)

lemma stdio_config:
  "fst (FastMcpClient_init E rawTarget ''stdio'' hdrs st) =
     StdioConfig (takeWhile (\<lambda>c. c \<noteq> CHR '' '') (strip rawTarget))
       (split_ws (tl (dropWhile (\<lambda>c. c \<noteq> CHR '' '') (strip rawTarget)))) hdrs"
proof (cases "CHR '' '' \<in> set (strip rawTarget)")
  case True
  then show ?thesis
    by (simp add: FastMcpClient_init_def Let_def split_max1_eq)
next
  case False
  then have d: "dropWhile (\<lambda>c. c \<noteq> CHR '' '') (strip rawTarget) = []"
    and k: "takeWhile (\<lambda>c. c \<noteq> CHR '' '') (strip rawTarget) = strip rawTarget"
    by (auto simp: dropWhile_eq_Nil_conv takeWhile_eq_all_conv)
  show ?thesis
    unfolding d k using False by (simp add: FastMcpClient_init_def Let_def split_max1_eq split_ws_def)
qed

text \<open>
  C5, as amended. For stdio the trimmed target is split at its first space character: the
  command is what precedes that space, and the arguments are what follows it, split on
  runs of whitespace; the header map is the \<open>env\<close> entry. When no other whitespace
  character precedes the first space, this is the split on the first run of whitespace. The
  target \<open>npx -y server-x --flag\<close> gives the command \<open>npx\<close> and the arguments
  \<open>-y\<close>, \<open>server-x\<close>, \<open>--flag\<close>.
\<close>

theorem stdio_splits_at_first_space:
  "fst (FastMcpClient_init E rawTarget ''stdio'' hdrs st) =
     StdioConfig (takeWhile (\<lambda>c. c \<noteq> CHR '' '') (strip rawTarget))
       (split_ws (tl (dropWhile (\<lambda>c. c \<noteq> CHR '' '') (strip rawTarget)))) hdrs
   \<and> ((\<forall>c \<in> set (takeWhile (\<lambda>c. c \<noteq> CHR '' '') (strip rawTarget)). \<not> isspace c) \<longrightarrow>
        fst (FastMcpClient_init E rawTarget ''stdio'' hdrs st) =
          StdioConfig (spec_command (strip rawTarget)) (spec_args (strip rawTarget)) hdrs)
   \<and> fst (FastMcpClient_init E ''npx -y server-x --flag'' ''stdio'' hdrs st) =
        StdioConfig ''npx'' [''-y'', ''server-x'', ''--flag''] hdrs"
proof (intro conjI impI)
  show "fst (FastMcpClient_init E rawTarget ''stdio'' hdrs st) =
     StdioConfig (takeWhile (\<lambda>c. c \<noteq> CHR '' '') (strip rawTarget))
       (split_ws (tl (dropWhile (\<lambda>c. c \<noteq> CHR '' '') (strip rawTarget)))) hdrs"
    by (rule stdio_config)
next
  let ?t = "strip rawTarget"
  assume a: "\<forall>c \<in> set (takeWhile (\<lambda>c. c \<noteq> CHR '' '') ?t). \<not> isspace c"
  note eq = first_space_is_first_whitespace [OF a]
  have "split_ws (tl (dropWhile (\<lambda>c. c \<noteq> CHR '' '') ?t))
          = split_ws (dropWhile isspace (dropWhile (\<lambda>c. c \<noteq> CHR '' '') ?t))"
  proof (cases "dropWhile (\<lambda>c. c \<noteq> CHR '' '') ?t")
    case Nil
    show ?thesis unfolding Nil by simp
  next
    case (Cons c cs)
    then have "c = CHR '' ''" using hd_dropWhile [of "\<lambda>c. c \<noteq> CHR '' ''" ?t] by simp
    with Cons show ?thesis
      using split_ws_dropWhile [of "c # cs"] split_ws_dropWhile [of cs]
      by (simp add: isspace_space)
  qed
  then show "fst (FastMcpClient_init E rawTarget ''stdio'' hdrs st) =
          StdioConfig (spec_command ?t) (spec_args ?t) hdrs"
    by (simp add: stdio_config spec_command_def spec_args_def spec_remainder_def eq)
next
  show "fst (FastMcpClient_init E ''npx -y server-x --flag'' ''stdio'' hdrs st) =
        StdioConfig ''npx'' [''-y'', ''server-x'', ''--flag''] hdrs"
    by (simp add: stdio_config strip_def isspace_def split_ws_def)
qed

theorem stdio_splits_at_first_space_witness:
  "fst (FastMcpClient_init example_env ''uvx  mcp-server --port 1'' ''stdio'' [(''K'', ''v'')] example_state) =
          StdioConfig (spec_command (strip ''uvx  mcp-server --port 1'')) (spec_args (strip ''uvx  mcp-server --port 1'')) [(''K'', ''v'')]"
proof -
  have h: "\<forall>c \<in> set (takeWhile (\<lambda>c. c \<noteq> CHR '' '') (strip ''uvx  mcp-server --port 1'')). \<not> isspace c"
    by (simp add: strip_def isspace_def)
  show ?thesis
    using h stdio_splits_at_first_space
            [where rawTarget = "''uvx  mcp-server --port 1''" and E = example_env
               and hdrs = "[(''K'', ''v'')]" and st = example_state]
    by blast
qed

text \<open>
  C5, as stated, fails for a target whose first whitespace character is a tab: the code
  takes the whole of \<open>npx<TAB>-y\<close> as the command, with no arguments, where the split on
  the first run of whitespace gives the command \<open>npx\<close> and the argument \<open>-y\<close>.
\<close>

theorem stdio_tab_counterexample:
  "fst (FastMcpClient_init example_env (''npx'' @ [CHR 0x09] @ ''-y'') ''stdio'' [] example_state)
     = StdioConfig (''npx'' @ [CHR 0x09] @ ''-y'') [] []
   \<and> spec_command (''npx'' @ [CHR 0x09] @ ''-y'') = ''npx''
   \<and> spec_args (''npx'' @ [CHR 0x09] @ ''-y'') = [''-y'']"
  by (simp add: stdio_config strip_def isspace_def split_ws_def spec_command_def spec_args_def
      spec_remainder_def)

section \<open>Rendering text segments\<close>

lemma print_contents_quiet_prefix:
  "list_all (quiet E) pre \<Longrightarrow>
     print_contents E (pre @ cs) st = print_contents E cs (st\<lparr>out := out st @ shown E pre\<rparr>)"
proof (induction pre arbitrary: st)
  case Nil
  show ?case by (simp add: shown_def)
next
  case (Cons c pre)
  from Cons.prems have q: "quiet E c" and qs: "list_all (quiet E) pre" by simp_all
  have "print_contents E ((c # pre) @ cs) st
          = print_contents E (pre @ cs) (py_print (rendered E c) st)"
    using q by (auto simp: quiet_def rendered_def split: sum.splits)
  also have "\<dots> = print_contents E cs
                      ((py_print (rendered E c) st)\<lparr>out := out (py_print (rendered E c) st) @ shown E pre\<rparr>)"
    by (rule Cons.IH [OF qs])
  also have "(py_print (rendered E c) st)\<lparr>out := out (py_print (rendered E c) st) @ shown E pre\<rparr>
               = st\<lparr>out := out st @ shown E (c # pre)\<rparr>"
    by (simp add: py_print_def shown_def)
  finally show ?case .
qed

lemma print_contents_quiet:
  "list_all (quiet E) cs \<Longrightarrow>
     print_contents E cs st = (Inr (), st\<lparr>out := out st @ shown E cs\<rparr>)"
  using print_contents_quiet_prefix [of E cs "[]" st] by simp

text \<open>
  C6, as amended. Take a segment of type \<open>text\<close> anywhere in the list, after segments
  that are rendered without an exception. When its payload parses and the dumped text can
  be written to standard output, \<open>json.dumps\<close> of the parsed value with indentation 2
  and \<open>ensure_ascii\<close> off is printed in its place; when \<open>json.loads\<close> raises
  \<open>JSONDecodeError\<close>, the raw text is printed in its place, and that failure raises
  nothing. When \<open>json.loads\<close> raises an exception of another class, or \<open>print\<close>
  cannot encode the dumped text, that exception leaves the renderer after the segments
  before this one have been printed.
\<close>

theorem text_segment_rendering:
  assumes "ctype c = ''text''" and "list_all (quiet E) pre"
  shows "(loads E (ctext c) = Inr v \<and> \<not> unprintable E v \<and> list_all (quiet E) post \<longrightarrow>
            pretty_print_tool_result E (HasContent (pre @ c # post)) st =
              (Inr (), st\<lparr>out := out st @ Print banner # shown E pre
                                      @ Print (dumps E v 2 False) # shown E post\<rparr>))
       \<and> (loads E (ctext c) = Inl e \<and> cls e = JSONDecodeError \<and> list_all (quiet E) post \<longrightarrow>
            pretty_print_tool_result E (HasContent (pre @ c # post)) st =
              (Inr (), st\<lparr>out := out st @ Print banner # shown E pre
                                      @ Print (ctext c) # shown E post\<rparr>))
       \<and> (loads E (ctext c) = Inl e \<and> cls e \<noteq> JSONDecodeError \<longrightarrow>
            pretty_print_tool_result E (HasContent (pre @ c # post)) st =
              (Inl e, st\<lparr>out := out st @ Print banner # shown E pre\<rparr>))
       \<and> (loads E (ctext c) = Inr v \<and> unprintable E v \<longrightarrow>
            pretty_print_tool_result E (HasContent (pre @ c # post)) st =
              (Inl (Exn UnicodeEncodeError ''surrogates not allowed''),
               st\<lparr>out := out st @ Print banner # shown E pre\<rparr>))"
proof -
  let ?st1 = "st\<lparr>out := out st @ Print banner # shown E pre\<rparr>"
  have start: "pretty_print_tool_result E (HasContent (pre @ c # post)) st
                 = print_contents E (c # post) ?st1"
    using print_contents_quiet_prefix [OF assms(2), of "c # post" "py_print banner st"]
    by (simp add: pretty_print_tool_result_def py_print_def)
  have after: "list_all (quiet E) post \<Longrightarrow>
                 print_contents E post (py_print s ?st1)
                   = (Inr (), st\<lparr>out := out st @ Print banner # shown E pre @ Print s # shown E post\<rparr>)"
    for s
    using print_contents_quiet [of E post "py_print s ?st1"] by (simp add: py_print_def)
  show ?thesis
    unfolding start using assms(1) after by simp
qed

theorem text_segment_rendering_witness:
  "pretty_print_tool_result example_env
      (HasContent ([image_content] @ text_content obj_a # [text_content ''plain''])) example_state
     = (Inr (), example_state\<lparr>out := out example_state @ Print banner # [Print ''ImageContent'']
                                          @ Print pretty_a # [Print ''plain'']\<rparr>)
   \<and> pretty_print_tool_result example_env
        (HasContent ([text_content obj_a] @ text_content ''plain'' # [image_content])) example_state
       = (Inr (), example_state\<lparr>out := out example_state @ Print banner # [Print pretty_a]
                                            @ Print ''plain'' # [Print ''ImageContent'']\<rparr>)"
proof -
  have l1: "loads example_env (ctext (text_content obj_a)) = Inr obj_a"
    by (simp add: example_env_def example_loads_def text_content_def)
  have l2: "loads example_env (ctext (text_content ''plain''))
              = Inl (Exn JSONDecodeError ''Expecting value: line 1 column 1 (char 0)'')"
    by (simp add: example_env_def example_loads_def text_content_def obj_a_def)
  have d: "dumps example_env obj_a 2 False = pretty_a"
    by (simp add: example_env_def example_dumps_def numeral_2_eq_2 pretty_a_def)
  have u: "\<not> unprintable example_env obj_a" by (simp add: example_env_def)
  have t1: "ctype (text_content obj_a) = ''text''" and t2: "ctype (text_content ''plain'') = ''text''"
    by (simp_all add: text_content_def)
  have c2: "ctext (text_content ''plain'') = ''plain''" by (simp add: text_content_def)
  have qi: "quiet example_env image_content" by (simp add: quiet_def image_content_def)
  have qa: "quiet example_env (text_content obj_a)" using l1 u by (simp add: quiet_def)
  have qp: "quiet example_env (text_content ''plain'')" using l2 by (simp add: quiet_def)
  have si: "shown example_env [image_content] = [Print ''ImageContent'']"
    by (simp add: shown_def rendered_def image_content_def)
  have sa: "shown example_env [text_content obj_a] = [Print pretty_a]"
    using l1 d t1 by (simp add: shown_def rendered_def)
  have sp: "shown example_env [text_content ''plain''] = [Print ''plain'']"
    using l2 t2 c2 by (simp add: shown_def rendered_def)
  have a1: "pretty_print_tool_result example_env
      (HasContent ([image_content] @ text_content obj_a # [text_content ''plain''])) example_state
     = (Inr (), example_state\<lparr>out := out example_state @ Print banner # shown example_env [image_content]
          @ Print (dumps example_env obj_a 2 False) # shown example_env [text_content ''plain'']\<rparr>)"
    using l1 u qp text_segment_rendering
                     [OF t1, where E = example_env and pre = "[image_content]" and v = obj_a
                        and post = "[text_content ''plain'']" and st = example_state]
          qi
    by simp
  have a2: "pretty_print_tool_result example_env
        (HasContent ([text_content obj_a] @ text_content ''plain'' # [image_content])) example_state
       = (Inr (), example_state\<lparr>out := out example_state @ Print banner # shown example_env [text_content obj_a]
          @ Print (ctext (text_content ''plain'')) # shown example_env [image_content]\<rparr>)"
    using l2 qi text_segment_rendering
                   [OF t2, where E = example_env and pre = "[text_content obj_a]"
                      and e = "Exn JSONDecodeError ''Expecting value: line 1 column 1 (char 0)''"
                      and post = "[image_content]" and st = example_state]
          qa
    by simp
  show ?thesis using a1 a2 unfolding si sa sp d c2 by blast
qed

text \<open>
  C6, as stated, says that rendering never raises. A text segment whose payload is an
  integer literal of 4301 digits makes \<open>json.loads\<close> raise \<open>ValueError\<close>, which the
  handler for \<open>JSONDecodeError\<close> does not catch: rendering raises it after the banner.
\<close>

lemma py_int_over_limit:
  "py_int (replicate 4301 (CHR ''1'')) = Inl (int_limit_error 4301)"
  by (simp add: py_int_def list_all_iff isdecimal_char_def)

theorem rendering_raises_counterexample:
  "pretty_print_tool_result number_env
     (HasContent [text_content (replicate 4301 (CHR ''1''))]) example_state
     = (Inl (int_limit_error 4301), py_print banner example_state)"
proof -
  have lit: "is_int_literal (replicate 4301 (CHR ''1''))"
    by (simp add: is_int_literal_def list_all_iff isdecimal_char_def hd_replicate)
  have "loads number_env (replicate 4301 (CHR ''1'')) = Inl (int_limit_error 4301)"
    using lit by (simp add: number_env_def number_loads_def py_int_over_limit)
  then show ?thesis
    by (simp add: pretty_print_tool_result_def text_content_def int_limit_error_def)
qed

section \<open>Failed tool calls\<close>

lemma cmd_call_tool_never_propagates:
  "fst (cmd_call_tool E tool_name arguments st) = Inl e' \<Longrightarrow> \<not> is_Exception (cls e')"
proof -
  obtain ps r x where ct:
    "call_tool E tool_name (if truthy E arguments then arguments else empty_dict E) (xstate st)
       = ((ps, r), x)"
    by (metis prod.exhaust)
  assume a: "fst (cmd_call_tool E tool_name arguments st) = Inl e'"
  show ?thesis
  proof (cases r)
    case (Inl e)
    with a ct show ?thesis
      by (auto simp: cmd_call_tool_def Let_def split: if_splits)
  next
    case (Inr res)
    let ?st2 = "log_callbacks ps (py_print (''call tool '' @ tool_name @ '' ...'') st\<lparr>xstate := x\<rparr>)"
    obtain r3 st3 where pp: "pretty_print_tool_result E res ?st2 = (r3, st3)"
      by (metis prod.exhaust)
    with a ct Inr show ?thesis
      by (cases r3) (auto simp: cmd_call_tool_def Let_def split: if_splits)
  qed
qed

text \<open>
  C7. When \<open>call_tool\<close> raises an exception of a class derived from \<open>Exception\<close>,
  \<open>cmd_call_tool\<close> returns normally, having printed the notifications received and then
  the failure with the name of the tool and the message of the exception; the catalog,
  the client context and the pending input are as before. A pass through the loop that
  led to this call (a decimal command for a tool of the catalog, then its arguments) is
  followed by the next pass. Whatever happens in a call, also while the result is
  rendered, no exception of a class derived from \<open>Exception\<close> leaves \<open>cmd_call_tool\<close>.
\<close>

theorem failed_call_is_absorbed:
  assumes "call_tool E tool_name (if truthy E arguments then arguments else empty_dict E) (xstate st)
             = ((ps, Inl e), x)"
    and "is_Exception (cls e)"
  shows "cmd_call_tool E tool_name arguments st = (Inr (), failed_call_state tool_name ps e x st)
       \<and> tools (failed_call_state tool_name ps e x st) = tools st
       \<and> connected (failed_call_state tool_name ps e x st) = connected st
       \<and> inp (failed_call_state tool_name ps e x st) = inp st
       \<and> (isdigit (strip line) \<and> py_int (strip line) = Inr (int i + 1) \<and> i < length (tools st0)
            \<and> name (tools st0 ! i) = tool_name \<and> tool_name \<noteq> []
            \<and> input_json E (args_prompt tool_name)
                 (py_print (dumps E (model_dump (tools st0 ! i)) 2 False)
                    (st0\<lparr>inp := rest, out := out st0 @ [Prompt prompt]\<rparr>)) = (Inr arguments, st)
          \<longrightarrow> cmd_loop E prompt (st0\<lparr>inp := line # rest\<rparr>)
                = cmd_loop E prompt (failed_call_state tool_name ps e x st))
       \<and> (fst (cmd_call_tool E tool_name' arguments' st') = Inl e' \<longrightarrow> \<not> is_Exception (cls e'))"
proof (intro conjI impI)
  show call: "cmd_call_tool E tool_name arguments st = (Inr (), failed_call_state tool_name ps e x st)"
    using assms by (simp add: cmd_call_tool_def Let_def failed_call_state_def)
  show "tools (failed_call_state tool_name ps e x st) = tools st"
    "connected (failed_call_state tool_name ps e x st) = connected st"
    "inp (failed_call_state tool_name ps e x st) = inp st"
    by (simp_all add: failed_call_state_def)
  assume a: "isdigit (strip line) \<and> py_int (strip line) = Inr (int i + 1) \<and> i < length (tools st0)
            \<and> name (tools st0 ! i) = tool_name \<and> tool_name \<noteq> []
            \<and> input_json E (args_prompt tool_name)
                 (py_print (dumps E (model_dump (tools st0 ! i)) 2 False)
                    (st0\<lparr>inp := rest, out := out st0 @ [Prompt prompt]\<rparr>)) = (Inr arguments, st)"
  let ?st1 = "st0\<lparr>inp := rest, out := out st0 @ [Prompt prompt]\<rparr>"
  have sh: "cmd_show_tool_schema E (int i) ?st1
              = (Some tool_name, py_print (dumps E (model_dump (tools st0 ! i)) 2 False) ?st1)"
    using a by (simp add: cmd_show_tool_schema_def Let_def)
  have "cmd_iteration E prompt (st0\<lparr>inp := line # rest\<rparr>)
          = (Inr Next, failed_call_state tool_name ps e x st)"
    using a isdigit_not_keyword [of "strip line"] sh call
    by (simp add: cmd_iteration_def py_input_def Let_def out_inp_update)
  then show "cmd_loop E prompt (st0\<lparr>inp := line # rest\<rparr>)
                = cmd_loop E prompt (failed_call_state tool_name ps e x st)"
    by (subst cmd_loop.simps) simp
next
  assume "fst (cmd_call_tool E tool_name' arguments' st') = Inl e'"
  then show "\<not> is_Exception (cls e')" by (rule cmd_call_tool_never_propagates)
qed

theorem failed_call_is_absorbed_witness:
  "cmd_call_tool example_env ''add'' ''{}'' example_after_args
     = (Inr (), failed_call_state ''add'' [\<lparr>p_progress = ''1'', p_total = ''2'', p_message = ''working''\<rparr>]
                  (Exn (OtherException ''ToolError'') ''boom'') 1 example_after_args)
   \<and> tools (failed_call_state ''add'' [\<lparr>p_progress = ''1'', p_total = ''2'', p_message = ''working''\<rparr>]
                  (Exn (OtherException ''ToolError'') ''boom'') 1 example_after_args) = example_tools
   \<and> connected (failed_call_state ''add'' [\<lparr>p_progress = ''1'', p_total = ''2'', p_message = ''working''\<rparr>]
                  (Exn (OtherException ''ToolError'') ''boom'') 1 example_after_args)
   \<and> cmd_loop example_env ''> '' (example_state\<lparr>inp := ''2'' # [''{}'', ''quit'']\<rparr>)
       = cmd_loop example_env ''> ''
           (failed_call_state ''add'' [\<lparr>p_progress = ''1'', p_total = ''2'', p_message = ''working''\<rparr>]
                  (Exn (OtherException ''ToolError'') ''boom'') 1 example_after_args)"
proof -
  let ?ps = "[\<lparr>p_progress = ''1'', p_total = ''2'', p_message = ''working''\<rparr>]"
  let ?e = "Exn (OtherException ''ToolError'') ''boom''"
  have h1: "call_tool example_env ''add''
              (if truthy example_env ''{}'' then ''{}'' else empty_dict example_env)
              (xstate example_after_args) = ((?ps, Inl ?e), 1)"
    by (simp add: example_env_def example_call_tool_def example_after_args_def example_state_def)
  have h2: "is_Exception (cls ?e)" by simp
  have s: "strip ''2'' = ''2''" by (simp add: strip_def isspace_def)
  have l: "isdigit (strip ''2'') \<and> py_int (strip ''2'') = Inr (int 1 + 1)"
    unfolding s by (simp add: isdigit_def isdigit_char_def py_int_def isdecimal_char_def digit_val_def)
  have t: "1 < length (tools example_state) \<and> name (tools example_state ! 1) = ''add'' \<and> ''add'' \<noteq> []"
    by (simp add: example_state_def example_tools_def)
  have j: "input_json example_env (args_prompt ''add'')
             (py_print (dumps example_env (model_dump (tools example_state ! 1)) 2 False)
                (example_state\<lparr>inp := [''{}'', ''quit''], out := out example_state @ [Prompt ''> '']\<rparr>))
           = (Inr ''{}'', example_after_args)"
    by (simp add: input_json_def input_json_loop_step [where line = "''{}''" and rest = "[''quit'']"]
          example_after_args_def example_state_def example_tools_def example_env_def
          example_dumps_def example_loads_def obj_a_def py_print_def args_prompt_def Let_def
          strip_def isspace_def startswith_def)
  have c: "connected example_after_args" "tools example_after_args = example_tools"
    by (simp_all add: example_after_args_def example_state_def)
  show ?thesis
    using l t j c failed_call_is_absorbed
                [OF h1 h2, where line = "''2''" and i = 1 and ?st0.0 = example_state
                   and rest = "[''{}'', ''quit'']" and prompt = "''> ''"]
    by simp
qed

section \<open>Header entries\<close>

lemma parse_headers_step:
  "parse_headers (header # rest) hdrs st =
     (if CHR '':'' \<in> set header
      then parse_headers rest
             (AList.update (strip (takeWhile (\<lambda>c. c \<noteq> CHR '':'') header))
                (strip (tl (dropWhile (\<lambda>c. c \<noteq> CHR '':'') header))) hdrs)
             (py_print (''Use Header '' @ strip (takeWhile (\<lambda>c. c \<noteq> CHR '':'') header) @ '':''
                          @ strip (tl (dropWhile (\<lambda>c. c \<noteq> CHR '':'') header))) st)
      else parse_headers rest hdrs (py_print (''Invalid header format: '' @ header) st))"
  by (simp add: split_max1_eq Let_def)

lemma parse_headers_append:
  "parse_headers (xs @ ys) hdrs st =
     (case parse_headers xs hdrs st of (h, s) \<Rightarrow> parse_headers ys h s)"
proof (induction xs arbitrary: hdrs st)
  case Nil
  show ?case by simp
next
  case (Cons x xs)
  show ?case
    by (simp add: parse_headers_step Cons del: parse_headers.simps(2))
qed

lemma parse_headers_fst_state:
  "fst (parse_headers hs hdrs st) = fst (parse_headers hs hdrs st')"
proof (induction hs arbitrary: hdrs st st')
  case Nil
  show ?case by simp
next
  case (Cons h hs)
  show ?case
    using Cons by (simp add: parse_headers_step del: parse_headers.simps(2))
qed

lemma parse_headers_filter:
  "fst (parse_headers hs hdrs st) = fst (parse_headers (filter (\<lambda>h. CHR '':'' \<in> set h) hs) hdrs st)"
proof (induction hs arbitrary: hdrs st)
  case Nil
  show ?case by simp
next
  case (Cons h hs)
  show ?case
  proof (cases "CHR '':'' \<in> set h")
    case True
    then show ?thesis
      using Cons by (simp add: parse_headers_step del: parse_headers.simps(2))
  next
    case False
    have "fst (parse_headers (h # hs) hdrs st)
            = fst (parse_headers hs hdrs (py_print (''Invalid header format: '' @ h) st))"
      using False by (simp add: parse_headers_step del: parse_headers.simps(2))
    also have "\<dots> = fst (parse_headers hs hdrs st)" by (rule parse_headers_fst_state)
    also have "\<dots> = fst (parse_headers (filter (\<lambda>h. CHR '':'' \<in> set h) hs) hdrs st)" by (rule Cons)
    finally show ?thesis using False by simp
  qed
qed

text \<open>
  C8. An entry with a colon is split at its first colon, and the trimmed key is given the
  trimmed value in the map, whatever the entries before it stored under that key: after
  the last entry the map has that entry's value for its key. An entry without a colon
  is reported as invalid and leaves the map as it is: the map is the one the entries with
  a colon alone give. \<open>parse_headers\<close> has no error among its results.
\<close>

theorem header_entries:
  "(CHR '':'' \<in> set header \<longrightarrow>
      parse_headers (header # rest) hdrs st =
        parse_headers rest
          (AList.update (strip (takeWhile (\<lambda>c. c \<noteq> CHR '':'') header))
             (strip (tl (dropWhile (\<lambda>c. c \<noteq> CHR '':'') header))) hdrs)
          (py_print (''Use Header '' @ strip (takeWhile (\<lambda>c. c \<noteq> CHR '':'') header) @ '':''
                       @ strip (tl (dropWhile (\<lambda>c. c \<noteq> CHR '':'') header))) st)
      \<and> map_of (fst (parse_headers (hs @ [header]) hdrs st))
            (strip (takeWhile (\<lambda>c. c \<noteq> CHR '':'') header))
          = Some (strip (tl (dropWhile (\<lambda>c. c \<noteq> CHR '':'') header))))
   \<and> (CHR '':'' \<notin> set header \<longrightarrow>
        parse_headers (header # rest) hdrs st =
          parse_headers rest hdrs (py_print (''Invalid header format: '' @ header) st))
   \<and> fst (parse_headers hs hdrs st)
       = fst (parse_headers (filter (\<lambda>h. CHR '':'' \<in> set h) hs) hdrs st)"
proof (intro conjI impI)
  assume c: "CHR '':'' \<in> set header"
  then show "parse_headers (header # rest) hdrs st =
        parse_headers rest
          (AList.update (strip (takeWhile (\<lambda>c. c \<noteq> CHR '':'') header))
             (strip (tl (dropWhile (\<lambda>c. c \<noteq> CHR '':'') header))) hdrs)
          (py_print (''Use Header '' @ strip (takeWhile (\<lambda>c. c \<noteq> CHR '':'') header) @ '':''
                       @ strip (tl (dropWhile (\<lambda>c. c \<noteq> CHR '':'') header))) st)"
    by (simp add: parse_headers_step del: parse_headers.simps(2))
  obtain h s where p: "parse_headers hs hdrs st = (h, s)" by (cases "parse_headers hs hdrs st")
  from c show "map_of (fst (parse_headers (hs @ [header]) hdrs st))
            (strip (takeWhile (\<lambda>c. c \<noteq> CHR '':'') header))
          = Some (strip (tl (dropWhile (\<lambda>c. c \<noteq> CHR '':'') header)))"
    by (simp add: parse_headers_append p parse_headers_step update_conv' del: parse_headers.simps(2))
next
  assume "CHR '':'' \<notin> set header"
  then show "parse_headers (header # rest) hdrs st =
          parse_headers rest hdrs (py_print (''Invalid header format: '' @ header) st)"
    by (simp add: parse_headers_step del: parse_headers.simps(2))
next
  show "fst (parse_headers hs hdrs st)
       = fst (parse_headers (filter (\<lambda>h. CHR '':'' \<in> set h) hs) hdrs st)"
    by (rule parse_headers_filter)
qed

theorem header_entries_witness:
  "CHR '':'' \<in> set ''A : 2'' \<and> CHR '':'' \<notin> set ''bad''
   \<and> map_of (fst (parse_headers ([''A: 1'', ''bad''] @ [''A : 2'']) [] example_state)) ''A'' = Some ''2''
   \<and> parse_headers (''bad'' # [''A : 2'']) [(''A'', ''1'')] example_state
       = parse_headers [''A : 2''] [(''A'', ''1'')]
           (py_print (''Invalid header format: '' @ ''bad'') example_state)"
proof -
  have c: "CHR '':'' \<in> set ''A : 2''" and n: "CHR '':'' \<notin> set ''bad''" by simp_all
  have k: "strip (takeWhile (\<lambda>c. c \<noteq> CHR '':'') ''A : 2'') = ''A''"
    and v: "strip (tl (dropWhile (\<lambda>c. c \<noteq> CHR '':'') ''A : 2'')) = ''2''"
    by (simp_all add: strip_def isspace_def)
  show ?thesis
    using c n header_entries
              [where header = "''A : 2''" and hs = "[''A: 1'', ''bad'']" and hdrs = "[]"
                 and st = example_state, unfolded k v]
            header_entries
              [where header = "''bad''" and rest = "[''A : 2'']" and hdrs = "[(''A'', ''1'')]"
                 and st = example_state]
    by blast
qed

section \<open>The endpoint asked for interactively\<close>

text \<open>
  C9, as amended. With no endpoint on the command line, the process shows the help text,
  the samples and the request for a url, and reads a line; when the trimmed line does not
  start with \<open>http\<close> it prints the message and returns, without connecting and
  without an error, whatever transport kind was given on the command line.
\<close>

theorem interactive_url_must_start_with_http:
  assumes "arg_url a = []" and "\<not> startswith (strip line) ''http''"
  shows "main E prompt a (st\<lparr>inp := line # rest\<rparr>)
           = (Inr (), st\<lparr>inp := rest, out := out st @ url_rejected E\<rparr>)
       \<and> run E prompt a (st\<lparr>inp := line # rest\<rparr>)
           = (Inr (), st\<lparr>inp := rest, out := out st @ url_rejected E\<rparr>)"
proof -
  have "prompt_url E (st\<lparr>inp := line # rest\<rparr>)
          = (Inr None, st\<lparr>inp := rest, out := out st @ url_rejected E\<rparr>)"
    using assms(2)
    by (simp add: prompt_url_def py_input_def py_print_def Let_def url_rejected_def)
  then have m: "main E prompt a (st\<lparr>inp := line # rest\<rparr>)
           = (Inr (), st\<lparr>inp := rest, out := out st @ url_rejected E\<rparr>)"
    using assms(1) by (simp add: main_def)
  then show ?thesis by (simp add: run_def)
qed

theorem interactive_url_must_start_with_http_witness:
  "arg_url \<lparr>arg_url = [], arg_type = [], arg_debug = False, arg_header = []\<rparr> = []
   \<and> \<not> startswith (strip ''ftp://host/mcp'') ''http''
   \<and> main example_env ''> '' \<lparr>arg_url = [], arg_type = [], arg_debug = False, arg_header = []\<rparr>
        (example_start\<lparr>inp := ''ftp://host/mcp'' # []\<rparr>)
       = (Inr (), example_start\<lparr>inp := [], out := out example_start @ url_rejected example_env\<rparr>)"
proof -
  have h1: "arg_url \<lparr>arg_url = [], arg_type = [], arg_debug = False, arg_header = []\<rparr> = []"
    by simp
  have h2: "\<not> startswith (strip ''ftp://host/mcp'') ''http''"
    by (simp add: strip_def isspace_def startswith_def)
  show ?thesis
    using h1 h2 interactive_url_must_start_with_http
                  [OF h1 h2, where E = example_env and prompt = "''> ''" and st = example_start
                     and rest = "[]"]
    by blast
qed

text \<open>
  C9, as stated, says that an endpoint entered at the prompt is not rejected for this reason
  when the kind \<open>stdio\<close> was given. The code does reject it: with \<open>-type stdio\<close> and
  the line \<open>npx -y server-x\<close> the process prints the message and returns, and the
  client context is never opened.
\<close>

theorem interactive_stdio_counterexample:
  "main example_env ''> '' \<lparr>arg_url = [], arg_type = ''stdio'', arg_debug = False, arg_header = []\<rparr>
     (example_start\<lparr>inp := [''npx -y server-x'']\<rparr>)
     = (Inr (), example_start\<lparr>inp := [], out := url_rejected example_env\<rparr>)
   \<and> last (url_rejected example_env) = Print ''URL string must start with http''
   \<and> \<not> connected example_start"
  by (simp add: main_def prompt_url_def py_input_def py_print_def Let_def url_rejected_def
      example_start_def strip_def isspace_def startswith_def)

end
